theory Spec2Isabelle
  imports Main "HOL-Library.Sublist" "HOL-Library.Char_ord" "HOL-Library.List_Lexorder"
begin

section \<open>Python strings\<close>

text \<open>
  The plugin \<^verbatim>\<open>up_local playlists.py\<close> works on Python \<^verbatim>\<open>str\<close> values. They are
  modelled as \<^typ>\<open>string\<close>; the string methods the plugin calls are written out below
  with the behaviour CPython documents for them.
\<close>

abbreviation slash :: char where
  "slash \<equiv> CHR ''/''"

abbreviation backslash :: char where
  "backslash \<equiv> CHR 0x5C"

text \<open>\<^verbatim>\<open>s.startswith(p)\<close> and \<^verbatim>\<open>s.endswith(p)\<close>.\<close>

definition startswith :: "string \<Rightarrow> string \<Rightarrow> bool" where
  "startswith s p = prefix p s"

definition endswith :: "string \<Rightarrow> string \<Rightarrow> bool" where
  "endswith s p = suffix p s"

text \<open>
  \<^verbatim>\<open>s.replace(old, new)\<close>: every occurrence of \<open>old\<close> is replaced, scanning from the
  left, occurrences not overlapping. With an empty \<open>old\<close>, \<open>new\<close> is inserted before every
  character and at the end.
\<close>

function str_replace :: "string \<Rightarrow> string \<Rightarrow> string \<Rightarrow> string" where
  "str_replace [] old new = (if old = [] then new else [])"
| "str_replace (c # cs) old new =
     (if old = [] then new @ c # str_replace cs old new
      else if prefix old (c # cs) then new @ str_replace (drop (length old) (c # cs)) old new
      else c # str_replace cs old new)"
  by pat_completeness auto
termination
  by (relation "measure (\<lambda>(s, old, new). length s)") auto

text \<open>\<^verbatim>\<open>s.lstrip(c)\<close> and \<^verbatim>\<open>s.rstrip(c)\<close> for a one-character argument.\<close>

definition str_lstrip :: "char \<Rightarrow> string \<Rightarrow> string" where
  "str_lstrip c s = dropWhile (\<lambda>x. x = c) s"

definition str_rstrip :: "char \<Rightarrow> string \<Rightarrow> string" where
  "str_rstrip c s = rev (dropWhile (\<lambda>x. x = c) (rev s))"

section \<open>The host: \<^verbatim>\<open>os.name\<close> and \<^verbatim>\<open>os.path.join\<close>\<close>

text \<open>
  The model is of a run on a POSIX host: \<^verbatim>\<open>os.name\<close> is \<^verbatim>\<open>"posix"\<close> and \<^verbatim>\<open>os.path\<close> is
  \<^verbatim>\<open>posixpath\<close>. \<^verbatim>\<open>posixpath.join(a, b)\<close> returns \<open>b\<close> when \<open>b\<close> is absolute, appends
  \<open>b\<close> directly when \<open>a\<close> is empty or ends with a separator, and puts one \<^verbatim>\<open>/\<close> between
  them otherwise.
\<close>

definition os_name :: string where
  "os_name = ''posix''"

definition os_path_join :: "string \<Rightarrow> string \<Rightarrow> string" where
  "os_path_join a b =
     (if startswith b ''/'' then b
      else if a = [] \<or> endswith a ''/'' then a @ b
      else a @ ''/'' @ b)"

section \<open>Path Translator\<close>

text \<open>
  \<^verbatim>\<open>database\<close> holds the two prepends the user configured; the nested functions
  \<^verbatim>\<open>remove_prepend\<close> and \<^verbatim>\<open>convert_path\<close> of \<^verbatim>\<open>run\<close> read it (and
  \<^verbatim>\<open>enable_convert_path\<close>) from the enclosing scope, here an argument.
\<close>

record database =
  local_prepend :: string
  ultrasonics_prepend :: string

definition remove_prepend :: "database \<Rightarrow> string \<Rightarrow> bool \<Rightarrow> string" where
  "remove_prepend db path invert =
     (if \<not> invert then
        (if local_prepend db \<noteq> [] then
           str_lstrip backslash (str_lstrip slash (str_replace path (local_prepend db) []))
         else path)
      else
        (if ultrasonics_prepend db \<noteq> [] then
           str_lstrip backslash (str_lstrip slash (str_replace path (ultrasonics_prepend db) []))
         else path))"

text \<open>The prepend a call of \<^verbatim>\<open>remove_prepend\<close> works with: the branch \<open>invert\<close> selects.\<close>

definition configured_prepend :: "database \<Rightarrow> bool \<Rightarrow> string" where
  "configured_prepend db invert = (if invert then ultrasonics_prepend db else local_prepend db)"

definition enable_convert_path :: "database \<Rightarrow> bool" where
  "enable_convert_path db =
     (startswith (ultrasonics_prepend db) ''/'' \<noteq> startswith (local_prepend db) ''/'')"

definition convert_path :: "database \<Rightarrow> string \<Rightarrow> bool \<Rightarrow> string" where
  "convert_path db path invert =
     (if enable_convert_path db then
        (let unix = (os_name \<noteq> ''nt'');
             unix = (if invert then \<not> unix else unix)
         in if unix then str_replace path [backslash] ''/''
            else str_replace path ''/'' [backslash])
      else path)"

section \<open>More string functions\<close>

text \<open>
  \<^verbatim>\<open>s.splitlines()\<close>: the line boundaries among the characters below 256 are
  \<^verbatim>\<open>\n\<close>, \<^verbatim>\<open>\r\<close>, \<^verbatim>\<open>\r\n\<close>, \<^verbatim>\<open>\v\<close>, \<^verbatim>\<open>\f\<close>, \<^verbatim>\<open>\x1c\<close>, \<^verbatim>\<open>\x1d\<close>, \<^verbatim>\<open>\x1e\<close> and \<^verbatim>\<open>\x85\<close>; the
  boundaries are not part of the lines, and a final boundary opens no further line.
\<close>

abbreviation LF :: char where
  "LF \<equiv> CHR 0x0A"

abbreviation CR :: char where
  "CR \<equiv> CHR 0x0D"

definition is_linebreak :: "char \<Rightarrow> bool" where
  "is_linebreak c =
     (c \<in> set [LF, CHR 0x0B, CHR 0x0C, CR, CHR 0x1C, CHR 0x1D, CHR 0x1E, CHR 0x85])"

fun splitlines :: "string \<Rightarrow> string list" where
  "splitlines [] = []"
| "splitlines (c # cs) =
     (if is_linebreak c then
        [] # splitlines (if c = CR \<and> cs \<noteq> [] \<and> hd cs = LF then tl cs else cs)
      else (case splitlines cs of [] \<Rightarrow> [[c]] | l # ls \<Rightarrow> (c # l) # ls))"

text \<open>\<^verbatim>\<open>s.split("/")\<close>, and \<^verbatim>\<open>posixpath.splitext\<close>, \<^verbatim>\<open>posixpath.dirname\<close>.\<close>

fun split_sep :: "string \<Rightarrow> string list" where
  "split_sep [] = [[]]"
| "split_sep (c # cs) =
     (if c = slash then [] # split_sep cs
      else (case split_sep cs of [] \<Rightarrow> [[c]] | w # ws \<Rightarrow> (c # w) # ws))"

definition os_path_splitext :: "string \<Rightarrow> string \<times> string" where
  "os_path_splitext p =
     (let base_rev = takeWhile (\<lambda>c. c \<noteq> slash) (rev p);
          head = rev (dropWhile (\<lambda>c. c \<noteq> slash) (rev p))
      in if CHR ''.'' \<notin> set base_rev then (p, [])
         else
           (let ext_rev = takeWhile (\<lambda>c. c \<noteq> CHR ''.'') base_rev;
                stem_rev = tl (dropWhile (\<lambda>c. c \<noteq> CHR ''.'') base_rev)
            in if list_ex (\<lambda>c. c \<noteq> CHR ''.'') stem_rev
               then (head @ rev stem_rev, CHR ''.'' # rev ext_rev)
               else (p, [])))"

definition os_path_dirname :: "string \<Rightarrow> string" where
  "os_path_dirname p =
     (let head = rev (dropWhile (\<lambda>c. c \<noteq> slash) (rev p))
      in if head \<noteq> [] \<and> list_ex (\<lambda>c. c \<noteq> slash) head then str_rstrip slash head else head)"

section \<open>Exceptions\<close>

text \<open>
  Every exception that can leave a call is a value. \<open>Exception\<close> stands for any
  exception class other than the ones named.
\<close>

datatype exn =
    FileNotFoundError
  | FileExistsError
  | NotADirectoryError
  | IsADirectoryError
  | NotImplementedError
  | KeyError string
  | IndexError
  | ValueError
  | UnboundLocalError string
  | Exception string

section \<open>The file system\<close>

text \<open>
  The plugin reaches the file system through \<^verbatim>\<open>os\<close>, \<^verbatim>\<open>shutil\<close> and \<^verbatim>\<open>io\<close>. Their
  effect is modelled on a file system that is a list of entries, each a path (its list of
  components) with a node, a directory or a text file with its content. The order of the
  list is the order in which the host lists entries. The working directory (the empty
  component list) and the root (the single component \<^verbatim>\<open>/\<close>) are directories that always
  exist. Paths are taken without \<^verbatim>\<open>.\<close> and \<^verbatim>\<open>..\<close> components; there are no links and no
  permissions, and a call that fails leaves the file system as it was.
\<close>

datatype node = Dir | File string

type_synonym path = "string list"

type_synonym filesystem = "(path \<times> node) list"

definition components :: "string \<Rightarrow> path" where
  "components p =
     (if startswith p ''/'' then [''/''] else []) @ filter (\<lambda>w. w \<noteq> []) (split_sep p)"

definition lookup :: "filesystem \<Rightarrow> path \<Rightarrow> node option" where
  "lookup fs k = (if k = [] \<or> k = [''/''] then Some Dir else map_of fs k)"

text \<open>
  \<^verbatim>\<open>os.stat\<close>: the empty path names nothing, and a path with a trailing separator names a
  directory or nothing.
\<close>

definition stat :: "filesystem \<Rightarrow> string \<Rightarrow> exn + node" where
  "stat fs p =
     (if p = [] then Inl FileNotFoundError
      else (case lookup fs (components p) of
              None \<Rightarrow> Inl FileNotFoundError
            | Some Dir \<Rightarrow> Inr Dir
            | Some (File c) \<Rightarrow>
                if endswith p ''/'' then Inl NotADirectoryError else Inr (File c)))"

definition os_path_isfile :: "filesystem \<Rightarrow> string \<Rightarrow> bool" where
  "os_path_isfile fs p = (case stat fs p of Inr (File c) \<Rightarrow> True | _ \<Rightarrow> False)"

definition is_entry_of :: "path \<Rightarrow> path \<Rightarrow> bool" where
  "is_entry_of d k = (k \<noteq> [] \<and> k \<noteq> [''/''] \<and> butlast k = d)"

definition children :: "filesystem \<Rightarrow> path \<Rightarrow> string list" where
  "children fs d = map (\<lambda>e. last (fst e)) (filter (\<lambda>e. is_entry_of d (fst e)) fs)"

definition file_children :: "filesystem \<Rightarrow> path \<Rightarrow> string list" where
  "file_children fs d =
     map (\<lambda>e. last (fst e)) (filter (\<lambda>e. is_entry_of d (fst e) \<and> snd e \<noteq> Dir) fs)"

definition os_listdir :: "filesystem \<Rightarrow> string \<Rightarrow> exn + string list" where
  "os_listdir fs p =
     (case stat fs p of
        Inl e \<Rightarrow> Inl e
      | Inr (File c) \<Rightarrow> Inl NotADirectoryError
      | Inr Dir \<Rightarrow> Inr (children fs (components p)))"

text \<open>
  \<^verbatim>\<open>os.walk(top)\<close>, top-down: one pair of a directory's path and the names of its files, for
  \<open>top\<close> and every directory below it. The walk keeps a stack of the directories to visit:
  it takes the first, yields it, and puts the directories in it, in the order in which the
  directory lists them, before the rest of the stack; so a directory comes before the
  directories in it, and these come each with all that is below it. Errors are ignored
  (\<^verbatim>\<open>onerror=None\<close>): a \<open>top\<close> that is not a directory yields nothing. The path of a
  directory is \<open>top\<close> joined with the names that lead to it.
\<close>

definition dir_children :: "filesystem \<Rightarrow> path \<Rightarrow> string list" where
  "dir_children fs d =
     map (\<lambda>e. last (fst e)) (filter (\<lambda>e. is_entry_of d (fst e) \<and> snd e = Dir) fs)"

function walk_stack :: "filesystem \<Rightarrow> path list \<Rightarrow> path list" where
  "walk_stack fs [] = []"
| "walk_stack fs (d # stack) =
     d # walk_stack fs (map (\<lambda>n. d @ [n]) (dir_children fs d) @ stack)"
  by pat_completeness auto
termination
proof (relation "measure (\<lambda>(fs, stack). sum_list (map (\<lambda>x. Suc (length fs) ^
    (Suc (sum_list (map (\<lambda>e. length (fst e)) fs)) - length x)) stack))")
  show "wf (measure (\<lambda>(fs, stack). sum_list (map (\<lambda>x. Suc (length fs) ^
    (Suc (sum_list (map (\<lambda>e. length (fst e)) fs)) - length x)) stack)))"
    by simp
next
  fix fs :: filesystem and d :: path and stack :: "path list"
  define M where "M = sum_list (map (\<lambda>e. length (fst e)) fs)"
  have less: "sum_list (map (\<lambda>x. Suc (length fs) ^ (Suc M - length x))
           (map (\<lambda>n. d @ [n]) (dir_children fs d)))
       < Suc (length fs) ^ (Suc M - length d)"
  proof (cases "dir_children fs d = []")
    case True
    then show ?thesis by simp
  next
    case False
    then obtain n where "n \<in> set (dir_children fs d)"
      by (cases "dir_children fs d") auto
    then obtain e where e: "e \<in> set fs" "is_entry_of d (fst e)"
      by (auto simp: dir_children_def)
    then have "butlast (fst e) = d" "fst e \<noteq> []"
      by (auto simp: is_entry_of_def)
    then have "length (fst e) = Suc (length d)"
      by (cases "fst e" rule: rev_cases) auto
    moreover have "length (fst e) \<le> M"
      unfolding M_def using e(1) by (induction fs) auto
    ultimately have m: "Suc M - length d = Suc (M - length d)"
      by simp
    have l: "length (dir_children fs d) < Suc (length fs)"
      by (simp add: dir_children_def le_imp_less_Suc)
    have "sum_list (map (\<lambda>x. Suc (length fs) ^ (Suc M - length x))
             (map (\<lambda>n. d @ [n]) (dir_children fs d)))
        = length (dir_children fs d) * Suc (length fs) ^ (M - length d)"
      by (simp add: comp_def sum_list_triv)
    also have "\<dots> < Suc (length fs) * Suc (length fs) ^ (M - length d)"
      using l by (intro mult_strict_right_mono) simp_all
    finally show ?thesis
      using m by simp
  qed
  show "((fs, map (\<lambda>n. d @ [n]) (dir_children fs d) @ stack), (fs, d # stack))
    \<in> measure (\<lambda>(fs, stack). sum_list (map (\<lambda>x. Suc (length fs) ^
         (Suc (sum_list (map (\<lambda>e. length (fst e)) fs)) - length x)) stack))"
    using less by (simp add: M_def)
qed

definition os_walk :: "filesystem \<Rightarrow> string \<Rightarrow> (string \<times> string list) list" where
  "os_walk fs topdir =
     (case stat fs topdir of
        Inr Dir \<Rightarrow>
          map (\<lambda>d. (foldl os_path_join topdir (drop (length (components topdir)) d),
                    file_children fs d))
            (walk_stack fs [components topdir])
      | _ \<Rightarrow> [])"

text \<open>
  \<^verbatim>\<open>os.makedirs(p)\<close> creates the directory and the directories above it that are missing;
  it raises \<^verbatim>\<open>FileExistsError\<close> when \<open>p\<close> exists already.
\<close>

definition prefixes_of :: "path \<Rightarrow> path list" where
  "prefixes_of k = map (\<lambda>n. take n k) [1..<Suc (length k)]"

definition missing_dirs :: "filesystem \<Rightarrow> path \<Rightarrow> filesystem" where
  "missing_dirs fs k = map (\<lambda>a. (a, Dir)) (filter (\<lambda>a. lookup fs a = None) (prefixes_of k))"

definition file_above :: "filesystem \<Rightarrow> path \<Rightarrow> bool" where
  "file_above fs k =
     list_ex (\<lambda>a. case lookup fs a of Some (File c) \<Rightarrow> True | _ \<Rightarrow> False) (prefixes_of k)"

definition os_makedirs :: "filesystem \<Rightarrow> string \<Rightarrow> exn + filesystem" where
  "os_makedirs fs p =
     (let k = components p in
      if p = [] then Inl FileNotFoundError
      else if lookup fs k \<noteq> None then Inl FileExistsError
      else if file_above fs k then Inl NotADirectoryError
      else Inr (fs @ missing_dirs fs k))"

text \<open>
  \<^verbatim>\<open>shutil.copytree(src, dst)\<close> lists \<open>src\<close>, creates \<open>dst\<close> with \<^verbatim>\<open>os.makedirs\<close> (so an
  existing \<open>dst\<close> is an error) and copies what is below \<open>src\<close>, as it is at the call.
  \<^verbatim>\<open>shutil.rmtree(p)\<close> removes the directory and what is below it.
\<close>

definition shutil_copytree :: "filesystem \<Rightarrow> string \<Rightarrow> string \<Rightarrow> exn + filesystem" where
  "shutil_copytree fs src dst =
     (case stat fs src of
        Inl e \<Rightarrow> Inl e
      | Inr (File c) \<Rightarrow> Inl NotADirectoryError
      | Inr Dir \<Rightarrow>
          (case os_makedirs fs dst of
             Inl e \<Rightarrow> Inl e
           | Inr fs1 \<Rightarrow>
               Inr (fs1 @
                    map (\<lambda>e. (components dst @ drop (length (components src)) (fst e), snd e))
                      (filter (\<lambda>e. strict_prefix (components src) (fst e)) fs))))"

definition shutil_rmtree :: "filesystem \<Rightarrow> string \<Rightarrow> exn + filesystem" where
  "shutil_rmtree fs p =
     (case stat fs p of
        Inl e \<Rightarrow> Inl e
      | Inr (File c) \<Rightarrow> Inl NotADirectoryError
      | Inr Dir \<Rightarrow> Inr (filter (\<lambda>e. \<not> prefix (components p) (fst e)) fs))"

text \<open>
  \<^verbatim>\<open>io.open(p, "r", encoding="utf8").read()\<close>, and \<^verbatim>\<open>io.open(p, "w", encoding="utf8")\<close>
  followed by the writes and \<^verbatim>\<open>close()\<close>: opening for writing truncates an existing file
  or creates the file in an existing directory, and the file then holds what was written.
\<close>

definition read_text :: "filesystem \<Rightarrow> string \<Rightarrow> exn + string" where
  "read_text fs p =
     (case stat fs p of
        Inl e \<Rightarrow> Inl e
      | Inr Dir \<Rightarrow> Inl IsADirectoryError
      | Inr (File c) \<Rightarrow> Inr c)"

definition set_node :: "path \<Rightarrow> node \<Rightarrow> filesystem \<Rightarrow> filesystem" where
  "set_node k n fs =
     (if k \<in> set (map fst fs) then map (\<lambda>e. if fst e = k then (k, n) else e) fs
      else fs @ [(k, n)])"

definition write_text :: "filesystem \<Rightarrow> string \<Rightarrow> string \<Rightarrow> exn + filesystem" where
  "write_text fs p content =
     (let k = components p in
      if p = [] then Inl FileNotFoundError
      else (case lookup fs k of
              Some Dir \<Rightarrow> Inl IsADirectoryError
            | Some (File c) \<Rightarrow>
                if endswith p ''/'' then Inl NotADirectoryError
                else Inr (set_node k (File content) fs)
            | None \<Rightarrow>
                if endswith p ''/'' then Inl IsADirectoryError
                else if lookup fs (butlast k) = Some Dir then Inr (set_node k (File content) fs)
                else Inl FileNotFoundError))"




section \<open>The data of the plugin\<close>

text \<open>
  A song is a Python \<^verbatim>\<open>dict\<close> of tags, here an association list; an entry of
  \<^verbatim>\<open>songs_dict\<close> is a dict with the keys \<^verbatim>\<open>name\<close>, \<^verbatim>\<open>id\<close> and \<^verbatim>\<open>songs\<close>; an entry of the
  list \<^verbatim>\<open>playlists\<close> that \<^verbatim>\<open>run\<close> builds is a dict with the keys \<^verbatim>\<open>name\<close> and \<^verbatim>\<open>path\<close>.
\<close>

type_synonym song = "(string \<times> string) list"

record playlist =
  name :: string
  id_dict :: "(string \<times> string) list"
  songs :: "song list"

record playlist_file =
  file_name :: string
  file_path :: string

text \<open>
  \<^verbatim>\<open>settings_dict\<close> as \<^verbatim>\<open>builder\<close> declares it, and the keyword arguments of \<^verbatim>\<open>run\<close>
  that it reads (\<^verbatim>\<open>global_settings\<close> is read and not used).
\<close>

record settings =
  dir :: string
  recursive :: string
  filter_pattern :: string
  retention :: string

record kwargs =
  database :: database
  component :: string
  applet_id :: string
  songs_dict :: "playlist list"

text \<open>
  What \<^verbatim>\<open>run\<close> takes from outside the file: the configuration directory
  \<^verbatim>\<open>_ultrasonics["config_dir"]\<close>, the clock (the value of
  \<^verbatim>\<open>str(datetime.now().replace(microsecond=0))\<close>), and the two helpers of
  \<^verbatim>\<open>ultrasonics.tools\<close>: \<^verbatim>\<open>local_tags.tags\<close>, which returns the tags of a song file or
  raises, and \<^verbatim>\<open>name_filter.filter_list\<close>.
\<close>

record env =
  config_dir :: string
  now :: string
  local_tags_tags :: "string \<Rightarrow> exn + song"
  name_filter_filter_list :: "string list \<Rightarrow> string \<Rightarrow> string list"

definition supported_playlist_extensions :: "string list" where
  "supported_playlist_extensions = [''.m3u'']"

section \<open>Playlist Locator\<close>

text \<open>
  Lines 204 to 252 of \<^verbatim>\<open>run\<close>. The \<^verbatim>\<open>try\<close> around the scan catches every exception
  and logs it; \<^verbatim>\<open>os.walk\<close> raises none, and \<^verbatim>\<open>os.listdir\<close> raises before the first
  \<^verbatim>\<open>append\<close>, so a failed scan leaves \<^verbatim>\<open>playlists\<close> empty.
\<close>

definition playlists_dir :: "settings \<Rightarrow> string" where
  "playlists_dir st = str_rstrip backslash (str_rstrip slash (dir st))"

definition scan_playlists :: "settings \<Rightarrow> filesystem \<Rightarrow> playlist_file list" where
  "scan_playlists st fs =
     (let path = playlists_dir st;
          playlists =
            (if recursive st = ''Yes'' then
               concat (map (\<lambda>(root, files).
                   map (\<lambda>item. \<lparr>file_name = fst (os_path_splitext item),
                                file_path = os_path_join root item\<rparr>) files)
                 (os_walk fs path))
             else
               (case os_listdir fs path of
                  Inl e \<Rightarrow> []
                | Inr files \<Rightarrow>
                    map (\<lambda>item. \<lparr>file_name = fst (os_path_splitext item),
                                 file_path = os_path_join path item\<rparr>) files))
      in filter (\<lambda>item. snd (os_path_splitext (file_path item))
                          \<in> set supported_playlist_extensions) playlists)"

section \<open>Read Pipeline\<close>

text \<open>
  The loop over the lines of one playlist file, lines 275 to 303. Its state is the list
  \<^verbatim>\<open>songs_dict_entry["songs"]\<close> and the local variable \<^verbatim>\<open>temp_song_dict\<close>, which is
  unbound (\<open>None\<close>) until the first successful call of \<^verbatim>\<open>local_tags.tags\<close> in the run.
  The handler of \<^verbatim>\<open>NotImplementedError\<close> ends with \<^verbatim>\<open>continue\<close>; the handler of
  \<^verbatim>\<open>Exception\<close> logs and falls through to the \<^verbatim>\<open>append\<close> of line 303.
\<close>

fun read_songs ::
  "env \<Rightarrow> database \<Rightarrow> filesystem \<Rightarrow> string list \<Rightarrow> song list \<times> song option \<Rightarrow>
   exn + song list \<times> song option" where
  "read_songs ev db fs [] (acc, temp_song_dict) = Inr (acc, temp_song_dict)"
| "read_songs ev db fs (song # rest) (acc, temp_song_dict) =
     (if startswith song ''#'' then read_songs ev db fs rest (acc, temp_song_dict)
      else
        (let song_path = remove_prepend db song False;
             song_path = convert_path db song_path False;
             song_path = os_path_join (ultrasonics_prepend db) song_path
         in if \<not> os_path_isfile fs song_path then
              read_songs ev db fs rest (acc, temp_song_dict)
            else
              (case local_tags_tags ev song_path of
                 Inr tags \<Rightarrow> read_songs ev db fs rest (acc @ [tags], Some tags)
               | Inl e \<Rightarrow>
                   if e = NotImplementedError then
                     read_songs ev db fs rest (acc, temp_song_dict)
                   else
                     (case temp_song_dict of
                        None \<Rightarrow> Inl (UnboundLocalError ''temp_song_dict'')
                      | Some stale \<Rightarrow>
                          read_songs ev db fs rest (acc @ [stale], temp_song_dict)))))"

text \<open>The loop over the playlists, lines 267 to 306; \<^verbatim>\<open>io.open\<close> may raise.\<close>

fun read_playlists ::
  "env \<Rightarrow> database \<Rightarrow> filesystem \<Rightarrow> playlist_file list \<Rightarrow> song option \<Rightarrow>
   exn + playlist list" where
  "read_playlists ev db fs [] temp_song_dict = Inr []"
| "read_playlists ev db fs (pl # rest) temp_song_dict =
     (case read_text fs (file_path pl) of
        Inl e \<Rightarrow> Inl e
      | Inr text \<Rightarrow>
          (case read_songs ev db fs (splitlines text) ([], temp_song_dict) of
             Inl e \<Rightarrow> Inl e
           | Inr (found, temp_song_dict') \<Rightarrow>
               (case read_playlists ev db fs rest temp_song_dict' of
                  Inl e \<Rightarrow> Inl e
                | Inr entries \<Rightarrow>
                    Inr (\<lparr>name = file_name pl, id_dict = [], songs = found\<rparr> # entries))))"

section \<open>Backup Manager\<close>

definition runtime :: "env \<Rightarrow> string" where
  "runtime ev = str_replace (str_replace (now ev) '' '' ''-'') '':'' ''-''"

definition backup_dir :: "env \<Rightarrow> string \<Rightarrow> string" where
  "backup_dir ev applet =
     foldl os_path_join (config_dir ev) [''up_local playlists'', ''backups'', applet, []]"

definition retention_dict :: "(string \<times> nat) list" where
  "retention_dict = [(''No Backups'', 0), (''3 Backups'', 3), (''5 Backups'', 5), (''10 Backups'', 10)]"

text \<open>\<^verbatim>\<open>xs.index(x)\<close> (\<open>None\<close> where Python raises \<^verbatim>\<open>ValueError\<close>) and \<^verbatim>\<open>del xs[i]\<close>.\<close>

fun index_of :: "'a list \<Rightarrow> 'a \<Rightarrow> nat option" where
  "index_of [] x = None"
| "index_of (y # ys) x = (if y = x then Some 0 else map_option Suc (index_of ys x))"

definition delete_at :: "nat \<Rightarrow> 'a list \<Rightarrow> 'a list" where
  "delete_at i xs = take i xs @ drop (Suc i) xs"

text \<open>
  The \<^verbatim>\<open>while\<close> loop of lines 179 to 189, on the two lists \<^verbatim>\<open>backups\<close> and
  \<^verbatim>\<open>backup_time\<close>. \<^verbatim>\<open>min\<close> of an empty list raises \<^verbatim>\<open>ValueError\<close> and an index out of
  range raises \<^verbatim>\<open>IndexError\<close>.
\<close>

function prune_backups ::
  "string \<Rightarrow> nat \<Rightarrow> string list \<Rightarrow> string list \<Rightarrow> filesystem \<Rightarrow> (exn + unit) \<times> filesystem"
  where
  "prune_backups bdir keep backups backup_time fs =
     (if length backups > keep then
        (if backup_time = [] then (Inl ValueError, fs)
         else
           (case index_of backup_time (min_list backup_time) of
              None \<Rightarrow> (Inl ValueError, fs)
            | Some oldest_backup \<Rightarrow>
                if length backups \<le> oldest_backup then (Inl IndexError, fs)
                else
                  (case shutil_rmtree fs (os_path_join bdir (backups ! oldest_backup)) of
                     Inl e \<Rightarrow> (Inl e, fs)
                   | Inr fs' \<Rightarrow>
                       prune_backups bdir keep (delete_at oldest_backup backups)
                         (delete_at oldest_backup backup_time) fs')))
      else (Inr (), fs))"
  by pat_completeness auto
termination
  by (relation "measure (\<lambda>(bdir, keep, backups, backup_time, fs). length backups)")
    (auto simp: delete_at_def)

text \<open>
  Lines 159 to 189: the retention level, the snapshot when the level is positive, the
  listing and the pruning. The size report that follows only logs.
\<close>

definition snapshot_and_prune ::
  "env \<Rightarrow> settings \<Rightarrow> string \<Rightarrow> string \<Rightarrow> filesystem \<Rightarrow> (exn + unit) \<times> filesystem" where
  "snapshot_and_prune ev st applet path fs =
     (case map_of retention_dict (retention st) of
        None \<Rightarrow> (Inl (KeyError (retention st)), fs)
      | Some keep \<Rightarrow>
          (case (if keep > 0
                 then shutil_copytree fs path (os_path_join (backup_dir ev applet) (runtime ev))
                 else Inr fs) of
             Inl e \<Rightarrow> (Inl e, fs)
           | Inr fs1 \<Rightarrow>
               (case os_listdir fs1 (backup_dir ev applet) of
                  Inl e \<Rightarrow> (Inl e, fs1)
                | Inr backups \<Rightarrow>
                    prune_backups (backup_dir ev applet) keep backups
                      (map (\<lambda>b. str_replace b ''-'' []) backups) fs1)))"

text \<open>
  \<^verbatim>\<open>backup_playlists\<close>: \<^verbatim>\<open>os.makedirs\<close> in a \<^verbatim>\<open>try\<close> whose handler passes on
  \<^verbatim>\<open>FileExistsError\<close> only, then the rest.
\<close>

definition backup_playlists ::
  "env \<Rightarrow> settings \<Rightarrow> string \<Rightarrow> string \<Rightarrow> filesystem \<Rightarrow> (exn + unit) \<times> filesystem" where
  "backup_playlists ev st applet path fs =
     (case os_makedirs fs (os_path_dirname (backup_dir ev applet)) of
        Inr fs1 \<Rightarrow> snapshot_and_prune ev st applet path fs1
      | Inl e \<Rightarrow>
          if e = FileExistsError then snapshot_and_prune ev st applet path fs
          else (Inl e, fs))"

section \<open>Write/Merge Pipeline\<close>

text \<open>
  \<^verbatim>\<open>re.sub("[\\/:*?|<>]+[ ]*", "", title)\<close>. The pattern the regular expression engine
  receives is \<^verbatim>\<open>[\/:*?|<>]+[ ]*\<close>: in the character class \<^verbatim>\<open>\/\<close> is an escaped \<^verbatim>\<open>/\<close>, so
  the class holds the seven characters \<^verbatim>\<open>/ : * ? | < >\<close>. A match is a longest run of
  them with the spaces that follow it; every match is deleted.
\<close>

definition invalid_chars :: "char list" where
  "invalid_chars = ''/:*?|<>''"

function re_sub_title :: "string \<Rightarrow> string" where
  "re_sub_title [] = []"
| "re_sub_title (c # cs) =
     (if c \<in> set invalid_chars then
        re_sub_title (dropWhile (\<lambda>x. x = CHR '' '') (dropWhile (\<lambda>x. x \<in> set invalid_chars) cs))
      else c # re_sub_title cs)"
  by pat_completeness auto
termination
  by (relation "measure length")
    (auto intro!: le_imp_less_Suc order_trans [OF length_dropWhile_le] length_dropWhile_le)

text \<open>
  Lines 344 to 351: the path written for a song's \<^verbatim>\<open>location\<close>; and lines 339 to 354:
  what is written for a song, nothing for a song without \<^verbatim>\<open>location\<close>.
\<close>

definition local_path :: "database \<Rightarrow> string \<Rightarrow> string" where
  "local_path db location =
     (let song_path = remove_prepend db location True;
          prepend_path_converted = convert_path db (local_prepend db) False;
          song_path = os_path_join prepend_path_converted song_path
      in convert_path db song_path True)"

definition song_line :: "database \<Rightarrow> song \<Rightarrow> string option" where
  "song_line db song =
     (case map_of song ''location'' of
        None \<Rightarrow> None
      | Some location \<Rightarrow> Some (local_path db location @ [LF]))"

text \<open>
  Lines 322 to 334: the file that is opened for a title, the path of the first playlist
  found with that name, or a new file in the playlist directory.
\<close>

definition playlist_target :: "string \<Rightarrow> playlist_file list \<Rightarrow> string \<Rightarrow> exn + string" where
  "playlist_target path playlists title =
     (if title \<in> set (map file_name playlists) then
        (case map file_path (filter (\<lambda>x. file_name x = title) playlists) of
           [] \<Rightarrow> Inl IndexError
         | existing_playlist_path # _ \<Rightarrow> Inr existing_playlist_path)
      else Inr (os_path_join path (title @ ''.m3u'')))"

text \<open>
  The body of the loop of lines 317 to 356, for one item of \<^verbatim>\<open>songs_dict\<close>, and the
  loop. The items are the caller's objects: the assignment to \<^verbatim>\<open>item["name"]\<close> changes
  them, so the item and the list are returned as the caller sees them afterwards, also
  when an \<^verbatim>\<open>io.open\<close> raises.
\<close>

definition write_playlist ::
  "database \<Rightarrow> string \<Rightarrow> playlist_file list \<Rightarrow> playlist \<Rightarrow> filesystem \<Rightarrow>
   (exn + unit) \<times> filesystem \<times> playlist" where
  "write_playlist db path playlists item fs =
     (let item' = item\<lparr>name := re_sub_title (name item)\<rparr>
      in (case playlist_target path playlists (name item') of
            Inl e \<Rightarrow> (Inl e, fs, item')
          | Inr p \<Rightarrow>
              (case write_text fs p (concat (List.map_filter (song_line db) (songs item'))) of
                 Inl e \<Rightarrow> (Inl e, fs, item')
               | Inr fs' \<Rightarrow> (Inr (), fs', item'))))"

fun write_playlists ::
  "database \<Rightarrow> string \<Rightarrow> playlist_file list \<Rightarrow> playlist list \<Rightarrow> filesystem \<Rightarrow>
   (exn + unit) \<times> filesystem \<times> playlist list" where
  "write_playlists db path playlists [] fs = (Inr (), fs, [])"
| "write_playlists db path playlists (item # rest) fs =
     (case write_playlist db path playlists item fs of
        (Inl e, fs', item') \<Rightarrow> (Inl e, fs', item' # rest)
      | (Inr u, fs', item') \<Rightarrow>
          (case write_playlists db path playlists rest fs' of
             (r, fs'', rest') \<Rightarrow> (r, fs'', item' # rest')))"

section \<open>The entry point\<close>

text \<open>
  \<^verbatim>\<open>run\<close> returns the list of playlists as an input, \<^verbatim>\<open>None\<close> as an output and for any
  other component. The model returns with it the file system and \<^verbatim>\<open>songs_dict\<close> as the
  call leaves them.
\<close>

datatype return_value = Playlists "playlist list" | NoneValue

definition run ::
  "env \<Rightarrow> settings \<Rightarrow> kwargs \<Rightarrow> filesystem \<Rightarrow>
   (exn + return_value) \<times> filesystem \<times> playlist list" where
  "run ev st kw fs =
     (let db = database kw;
          path = playlists_dir st;
          playlists = scan_playlists st fs
      in if component kw = ''inputs'' then
           (let filter_titles =
                  name_filter_filter_list ev (map file_name playlists) (filter_pattern st);
                playlists = filter (\<lambda>item. file_name item \<in> set filter_titles) playlists
            in (case read_playlists ev db fs playlists None of
                  Inl e \<Rightarrow> (Inl e, fs, songs_dict kw)
                | Inr entries \<Rightarrow> (Inr (Playlists entries), fs, songs_dict kw)))
         else if component kw = ''outputs'' then
           (case backup_playlists ev st (applet_id kw) path fs of
              (Inl e, fs1) \<Rightarrow> (Inl e, fs1, songs_dict kw)
            | (Inr u, fs1) \<Rightarrow>
                (case write_playlists db path playlists (songs_dict kw) fs1 of
                   (Inl e, fs2, items) \<Rightarrow> (Inl e, fs2, items)
                 | (Inr u, fs2, items) \<Rightarrow> (Inr NoneValue, fs2, items)))
         else (Inr NoneValue, fs, songs_dict kw))"

section \<open>A small installation\<close>

text \<open>
  The concrete inputs on which the theorems below are tried: a playlist directory
  \<^verbatim>\<open>/pl\<close> with the playlist \<^verbatim>\<open>mix.m3u\<close>, the music below \<^verbatim>\<open>/mnt\<close>, playlists written with
  the prepend \<^verbatim>\<open>/music\<close>, and a tag reader that reads \<^verbatim>\<open>a.mp3\<close> and fails on every other
  file with an exception that is not \<^verbatim>\<open>NotImplementedError\<close>.
\<close>

definition example_fs :: filesystem where
  "example_fs =
     [([''/'', ''pl''], Dir),
      ([''/'', ''pl'', ''mix.m3u''],
         File (''# mix'' @ [LF] @ ''/music/a.mp3'' @ [LF] @ [LF] @ ''/music/b.mp3'' @ [LF])),
      ([''/'', ''mnt''], Dir),
      ([''/'', ''mnt'', ''a.mp3''], File []),
      ([''/'', ''mnt'', ''b.mp3''], File [])]"

definition example_tags :: "string \<Rightarrow> exn + song" where
  "example_tags p =
     (if p = ''/mnt/a.mp3'' then Inr [(''location'', p), (''title'', ''A'')]
      else Inl (Exception ''corrupt file''))"

definition example_env :: env where
  "example_env =
     \<lparr>config_dir = ''/cfg'', now = ''2020-01-02 03:04:05'',
      local_tags_tags = example_tags, name_filter_filter_list = (\<lambda>titles pattern. titles)\<rparr>"

definition example_settings :: settings where
  "example_settings =
     \<lparr>dir = ''/pl/'', recursive = ''No'', filter_pattern = [], retention = ''3 Backups''\<rparr>"

definition example_database :: database where
  "example_database = \<lparr>local_prepend = ''/music'', ultrasonics_prepend = ''/mnt''\<rparr>"

definition example_kwargs :: "string \<Rightarrow> playlist list \<Rightarrow> kwargs" where
  "example_kwargs mode items =
     \<lparr>database = example_database, component = mode, applet_id = ''job'', songs_dict = items\<rparr>"

text \<open>
  The backup directory of the job \<^verbatim>\<open>job\<close> with the given entries, each a directory; for
  the empty list these are the directories that \<^verbatim>\<open>os.makedirs\<close> creates on a first run.
\<close>

definition example_backups :: "string list \<Rightarrow> filesystem" where
  "example_backups names =
     [([''/'', ''cfg''], Dir),
      ([''/'', ''cfg'', ''up_local playlists''], Dir),
      ([''/'', ''cfg'', ''up_local playlists'', ''backups''], Dir),
      ([''/'', ''cfg'', ''up_local playlists'', ''backups'', ''job''], Dir)]
     @ map (\<lambda>n. ([''/'', ''cfg'', ''up_local playlists'', ''backups'', ''job'', n], Dir)) names"

text \<open>
  The small installation with two snapshots of the job \<^verbatim>\<open>job\<close> and a file \<^verbatim>\<open>1999.txt\<close>
  beside them in the backup directory.
\<close>

definition example_stray :: filesystem where
  "example_stray =
     example_fs @ example_backups [''2019-12-29-10-00-00'', ''2019-12-30-10-00-00'']
       @ [([''/'', ''cfg'', ''up_local playlists'', ''backups'', ''job'', ''1999.txt''], File [])]"

section \<open>Successive backups\<close>



section \<open>The Path Translator as the specification words it\<close>

text \<open>
  \<open>stripPrefix_spec\<close> follows the specification's sentence, not the code: the prefix is
  removed only where the path starts with it, then leading \<^verbatim>\<open>/\<close> and \<^verbatim>\<open>\\<close> characters are
  stripped; an empty prefix leaves the path as it is.
\<close>

definition stripPrefix_spec :: "string \<Rightarrow> string \<Rightarrow> string" where
  "stripPrefix_spec pre path =
     (if pre = [] then path
      else dropWhile (\<lambda>c. c = slash \<or> c = backslash)
             (if prefix pre path then drop (length pre) path else path))"

section \<open>Notions used in the statements\<close>

text \<open>The \<^verbatim>\<open>location\<close> values of the songs of a playlist that have one, in order.\<close>

definition located :: "playlist \<Rightarrow> string list" where
  "located item = List.map_filter (\<lambda>song. map_of song ''location'') (songs item)"


section \<open>Properties of the string functions\<close>

lemma str_replace_no_occurrence:
  "old \<noteq> [] \<Longrightarrow> \<not> sublist old s \<Longrightarrow> str_replace s old new = s"
proof (induction s)
  case Nil
  then show ?case by simp
next
  case (Cons c cs)
  from Cons.prems have np: "\<not> prefix old (c # cs)" and ns: "\<not> sublist old cs"
    by (auto simp: sublist_Cons_right)
  with Cons show ?case by simp
qed

lemma str_replace_leading:
  "old \<noteq> [] \<Longrightarrow> str_replace (old @ s) old new = new @ str_replace s old new"
  by (cases old) simp_all

lemma prefix_append_short:
  "length p \<le> length xs \<Longrightarrow> prefix p (xs @ ys) \<Longrightarrow> prefix p xs"
  by (auto simp: prefix_append)

lemma str_replace_first_occurrence:
  "old \<noteq> [] \<Longrightarrow> \<not> sublist old (a @ butlast old) \<Longrightarrow>
   str_replace (a @ old @ b) old new = a @ new @ str_replace b old new"
proof (induction a)
  case Nil
  then show ?case by (simp add: str_replace_leading)
next
  case (Cons c cs)
  have np: "\<not> prefix old (c # cs @ old @ b)"
  proof
    assume p: "prefix old (c # cs @ old @ b)"
    have le: "length old \<le> length ((c # cs) @ butlast old)"
      by simp
    have "old @ b = butlast old @ (last old # b)"
      using Cons.prems(1) by simp
    then have "c # cs @ old @ b = ((c # cs) @ butlast old) @ (last old # b)"
      by simp
    with p have "prefix old (((c # cs) @ butlast old) @ (last old # b))"
      by simp
    with le have "prefix old ((c # cs) @ butlast old)"
      by (rule prefix_append_short)
    then have "sublist old ((c # cs) @ butlast old)"
      by (rule prefix_imp_sublist)
    with Cons.prems(2) show False by simp
  qed
  have ns: "\<not> sublist old (cs @ butlast old)"
    using Cons.prems(2) by (auto simp: sublist_Cons_right)
  show ?case
    using Cons.IH [OF Cons.prems(1) ns] np Cons.prems(1) by simp
qed

lemma str_lstrip_no_lead: "\<not> startswith s [c] \<Longrightarrow> str_lstrip c s = s"
  by (cases s) (auto simp: startswith_def str_lstrip_def)

section \<open>Path Translator: what \<^verbatim>\<open>remove_prepend\<close> removes\<close>

text \<open>
  C2, as the specification states it: the prefix is removed only where the path starts
  with it. The code calls \<^verbatim>\<open>str.replace\<close>, which deletes the prefix wherever it occurs:
  with the local prepend \<^verbatim>\<open>/music\<close>, the path \<^verbatim>\<open>/data/music/a.mp3\<close> does not start with
  the prefix, yet \<^verbatim>\<open>remove_prepend\<close> returns \<^verbatim>\<open>data/a.mp3\<close>, not \<^verbatim>\<open>data/music/a.mp3\<close>.
\<close>

theorem remove_prepend_not_only_leading_counterexample:
  "remove_prepend \<lparr>local_prepend = ''/music'', ultrasonics_prepend = ''/mnt''\<rparr>
     ''/data/music/a.mp3'' False = ''data/a.mp3''
   \<and> stripPrefix_spec ''/music'' ''/data/music/a.mp3'' = ''data/music/a.mp3''
   \<and> remove_prepend \<lparr>local_prepend = ''/music'', ultrasonics_prepend = ''/mnt''\<rparr>
     ''/data/music/a.mp3'' False \<noteq> stripPrefix_spec ''/music'' ''/data/music/a.mp3''"
  by (simp add: remove_prepend_def stripPrefix_spec_def str_lstrip_def)

text \<open>
  C2, amended: with an empty prepend the path is returned unchanged. With a configured
  prepend, a path that does not contain it only loses its leading \<^verbatim>\<open>/\<close> characters and
  then its leading \<^verbatim>\<open>\\<close> characters; and an occurrence of the prepend is deleted wherever it
  is, leading or not: for a path \<open>a @ pre @ b\<close> whose first occurrence of the prepend is
  the one after \<open>a\<close>, the result is \<open>a\<close> followed by \<open>b\<close> with its own occurrences
  deleted, stripped of the leading \<^verbatim>\<open>/\<close> run and then of the leading \<^verbatim>\<open>\\<close> run.
\<close>

theorem remove_prepend_removes_every_occurrence:
  assumes "pre = configured_prepend db invert"
  shows "(pre = [] \<longrightarrow> remove_prepend db path invert = path)
       \<and> (pre \<noteq> [] \<longrightarrow> \<not> sublist pre path \<longrightarrow>
            remove_prepend db path invert = str_lstrip backslash (str_lstrip slash path))
       \<and> (pre \<noteq> [] \<longrightarrow> \<not> sublist pre (a @ butlast pre) \<longrightarrow>
            remove_prepend db (a @ pre @ b) invert =
              str_lstrip backslash (str_lstrip slash (a @ str_replace b pre [])))"
  using assms
  by (auto simp: remove_prepend_def configured_prepend_def str_replace_no_occurrence
      str_replace_first_occurrence)

theorem remove_prepend_removes_every_occurrence_witness:
  "configured_prepend \<lparr>local_prepend = ''/music'', ultrasonics_prepend = []\<rparr> True = []
   \<and> remove_prepend \<lparr>local_prepend = ''/music'', ultrasonics_prepend = []\<rparr>
         ''/mnt/a.mp3'' True = ''/mnt/a.mp3''
   \<and> configured_prepend \<lparr>local_prepend = ''/music'', ultrasonics_prepend = []\<rparr> False
         = ''/music''
   \<and> \<not> sublist ''/music'' ''//x/a.mp3''
   \<and> remove_prepend \<lparr>local_prepend = ''/music'', ultrasonics_prepend = []\<rparr>
         ''//x/a.mp3'' False = ''x/a.mp3''
   \<and> \<not> sublist ''/music'' (''/data'' @ butlast ''/music'')
   \<and> remove_prepend \<lparr>local_prepend = ''/music'', ultrasonics_prepend = []\<rparr>
         (''/data'' @ ''/music'' @ ''/a.mp3'') False = ''data/a.mp3''"
proof -
  let ?db = "\<lparr>local_prepend = ''/music'', ultrasonics_prepend = []\<rparr>"
  have e: "[] = configured_prepend ?db True"
    by (simp add: configured_prepend_def)
  have l: "''/music'' = configured_prepend ?db False"
    by (simp add: configured_prepend_def)
  have n1: "\<not> sublist ''/music'' ''//x/a.mp3''"
    by (simp add: sublist_Cons_right)
  have n2: "\<not> sublist ''/music'' (''/data'' @ butlast ''/music'')"
    by (simp add: sublist_Cons_right)
  have r: "str_replace ''/a.mp3'' ''/music'' [] = ''/a.mp3''"
    by simp
  have ne: "''/music'' \<noteq> []"
    by simp
  have w1: "remove_prepend ?db ''/mnt/a.mp3'' True = ''/mnt/a.mp3''"
    using remove_prepend_removes_every_occurrence [OF e, THEN conjunct1, of "''/mnt/a.mp3''"]
    by simp
  have w2: "remove_prepend ?db ''//x/a.mp3'' False = ''x/a.mp3''"
    using remove_prepend_removes_every_occurrence
      [OF l, THEN conjunct2, THEN conjunct1, rule_format, OF ne n1]
    by (simp add: str_lstrip_def)
  have w3: "remove_prepend ?db (''/data'' @ ''/music'' @ ''/a.mp3'') False = ''data/a.mp3''"
    using remove_prepend_removes_every_occurrence
      [OF l, THEN conjunct2, THEN conjunct2, rule_format, OF ne n2, of "''/a.mp3''"] r
    by (simp add: str_lstrip_def)
  show ?thesis
    using e [symmetric] l [symmetric] n1 n2 w1 w2 w3 by blast
qed

section \<open>Path Translator: stripping after prepending\<close>

text \<open>
  C8, as the specification states it: for every path \<open>p\<close> that does not contain the
  local prepend \<open>L\<close>, stripping the prepend from \<open>L\<close> prepended to \<open>p\<close> gives \<open>p\<close>
  back. It fails for a path that begins with a separator, which \<^verbatim>\<open>lstrip\<close> removes:
  with \<^verbatim>\<open>D:/Music\<close> and \<^verbatim>\<open>/a.mp3\<close> the result is \<^verbatim>\<open>a.mp3\<close>, whether the prepend is put in
  front by concatenation or by \<^verbatim>\<open>os.path.join\<close> as \<^verbatim>\<open>run\<close> does.
\<close>

theorem strip_after_prepend_counterexample:
  "\<not> sublist ''D:/Music'' ''/a.mp3''
   \<and> remove_prepend \<lparr>local_prepend = ''D:/Music'', ultrasonics_prepend = ''/mnt''\<rparr>
         (''D:/Music'' @ ''/a.mp3'') False \<noteq> ''/a.mp3''
   \<and> remove_prepend \<lparr>local_prepend = ''D:/Music'', ultrasonics_prepend = ''/mnt''\<rparr>
         (os_path_join ''D:/Music'' ''/a.mp3'') False \<noteq> ''/a.mp3''"
  by (simp add: remove_prepend_def str_lstrip_def os_path_join_def startswith_def
      sublist_Cons_right)

text \<open>
  C8, amended: for a configured local prepend \<open>L\<close> and a path \<open>p\<close> that does not contain
  \<open>L\<close> and does not begin with \<^verbatim>\<open>/\<close> or \<^verbatim>\<open>\\<close>, stripping the local prepend from \<open>L @ p\<close>
  gives \<open>p\<close>; and so does stripping it from \<^verbatim>\<open>os.path.join(L, p)\<close>, provided \<open>L\<close> does not
  occur in \<open>p\<close> preceded by the separator that the join inserts.
\<close>

theorem strip_after_prepend_recovers:
  assumes "local_prepend db = L" "L \<noteq> []" "\<not> sublist L p"
    "\<not> startswith p ''/''" "\<not> startswith p [backslash]"
  shows "remove_prepend db (L @ p) False = p
       \<and> (\<not> sublist L (slash # p) \<longrightarrow> remove_prepend db (os_path_join L p) False = p)"
proof -
  have a: "str_replace (L @ p) L [] = p"
    using assms by (simp add: str_replace_leading str_replace_no_occurrence)
  have s: "str_lstrip backslash (str_lstrip slash p) = p"
    using assms by (simp add: str_lstrip_no_lead)
  have s2: "str_lstrip backslash (str_lstrip slash (slash # p)) = p"
    using s by (simp add: str_lstrip_def)
  have b: "str_replace (L @ slash # p) L [] = slash # p" if "\<not> sublist L (slash # p)"
  proof -
    have "str_replace (slash # p) L [] = slash # p"
      using that assms(2) by (rule str_replace_no_occurrence [rotated])
    then show ?thesis
      using str_replace_leading [OF assms(2), of "slash # p" "[]"] by simp
  qed
  show ?thesis
    using assms a s s2 b
    by (auto simp: remove_prepend_def os_path_join_def)
qed

theorem strip_after_prepend_recovers_witness:
  "local_prepend \<lparr>local_prepend = ''D:/Music'', ultrasonics_prepend = ''/mnt''\<rparr> = ''D:/Music''
   \<and> \<not> sublist ''D:/Music'' ''a/b.mp3'' \<and> \<not> startswith ''a/b.mp3'' ''/''
   \<and> \<not> startswith ''a/b.mp3'' [backslash] \<and> \<not> sublist ''D:/Music'' (slash # ''a/b.mp3'')
   \<and> remove_prepend \<lparr>local_prepend = ''D:/Music'', ultrasonics_prepend = ''/mnt''\<rparr>
         (''D:/Music'' @ ''a/b.mp3'') False = ''a/b.mp3''
   \<and> remove_prepend \<lparr>local_prepend = ''D:/Music'', ultrasonics_prepend = ''/mnt''\<rparr>
         (os_path_join ''D:/Music'' ''a/b.mp3'') False = ''a/b.mp3''"
proof -
  let ?db = "\<lparr>local_prepend = ''D:/Music'', ultrasonics_prepend = ''/mnt''\<rparr>"
  have h1: "local_prepend ?db = ''D:/Music''" by simp
  have h2: "''D:/Music'' \<noteq> []" by simp
  have h3: "\<not> sublist ''D:/Music'' ''a/b.mp3''" by (simp add: sublist_Cons_right)
  have h4: "\<not> startswith ''a/b.mp3'' ''/''" by (simp add: startswith_def)
  have h5: "\<not> startswith ''a/b.mp3'' [backslash]" by (simp add: startswith_def)
  have h6: "\<not> sublist ''D:/Music'' (slash # ''a/b.mp3'')" by (simp add: sublist_Cons_right)
  show ?thesis
    using h1 h3 h4 h5 h6 strip_after_prepend_recovers [OF h1 h2 h3 h4 h5] by simp
qed

section \<open>Read Pipeline: comment lines and blank lines\<close>

lemma isfile_empty: "\<not> os_path_isfile fs []"
  by (simp add: os_path_isfile_def stat_def)

lemma isfile_trailing_slash: "endswith p ''/'' \<Longrightarrow> \<not> os_path_isfile fs p"
  by (auto simp: os_path_isfile_def stat_def split: option.splits node.splits sum.splits)

lemma remove_prepend_empty: "remove_prepend db [] invert = []"
  by (simp add: remove_prepend_def str_lstrip_def)

lemma convert_path_empty: "convert_path db [] invert = []"
  by (simp add: convert_path_def Let_def)

lemma join_empty_right: "os_path_join a [] = [] \<or> endswith (os_path_join a []) ''/''"
  by (auto simp: os_path_join_def startswith_def endswith_def)

lemma blank_line_not_a_file:
  "\<not> os_path_isfile fs
       (os_path_join (ultrasonics_prepend db) (convert_path db (remove_prepend db [] False) False))"
  using join_empty_right [of "ultrasonics_prepend db"]
  by (auto simp: remove_prepend_empty convert_path_empty isfile_empty isfile_trailing_slash)

text \<open>
  C9: a line that begins with \<^verbatim>\<open>#\<close> and an empty line never produce a song entry. The
  loop over the lines of a playlist file gives the same songs, the same
  \<^verbatim>\<open>temp_song_dict\<close> and the same exception, if any, as the loop over the lines that
  remain when those lines are taken out: such a line appends nothing and changes nothing.
  A comment line is skipped by the \<^verbatim>\<open>continue\<close> of line 279; an empty line resolves to the
  orchestrator prepend followed by a separator, or to the empty path, neither of which is
  a file, and is skipped by the \<^verbatim>\<open>continue\<close> of line 289.
\<close>

theorem comment_and_blank_lines_produce_no_song:
  "read_songs ev db fs lines st =
   read_songs ev db fs (filter (\<lambda>l. \<not> startswith l ''#'' \<and> l \<noteq> []) lines) st"
proof (induction lines arbitrary: st)
  case Nil
  show ?case by simp
next
  case (Cons l ls)
  obtain acc tmp where st: "st = (acc, tmp)" by (cases st)
  show ?case
  proof (cases "startswith l ''#''")
    case True
    then show ?thesis by (simp add: st Cons.IH)
  next
    case nc: False
    show ?thesis
    proof (cases "l = []")
      case True
      then show ?thesis
        using nc blank_line_not_a_file [of fs db] by (simp add: st Cons.IH Let_def)
    next
      case False
      then show ?thesis
        using nc
        by (simp add: st Cons.IH Let_def split: sum.splits option.splits)
    qed
  qed
qed

section \<open>Read Pipeline: an extraction that raises\<close>

text \<open>
  C1 says that an entry whose extraction raises an exception other than
  \<^verbatim>\<open>NotImplementedError\<close> is skipped. The handler of line 298 has no \<^verbatim>\<open>continue\<close>, so
  line 303 appends \<^verbatim>\<open>temp_song_dict\<close> as the last successful extraction left it. In the
  small installation the playlist \<^verbatim>\<open>mix.m3u\<close> names \<^verbatim>\<open>a.mp3\<close>, which is read, and
  \<^verbatim>\<open>b.mp3\<close>, on which the tag reader raises: the playlist read has two songs, the record
  of \<^verbatim>\<open>a.mp3\<close> twice.
\<close>

theorem run_appends_stale_record_on_extraction_error:
  "run example_env example_settings (example_kwargs ''inputs'' []) example_fs =
     (Inr (Playlists
        [\<lparr>name = ''mix'', id_dict = [],
          songs = [[(''location'', ''/mnt/a.mp3''), (''title'', ''A'')],
                   [(''location'', ''/mnt/a.mp3''), (''title'', ''A'')]]\<rparr>]),
      example_fs, [])"
  by code_simp

text \<open>
  When the extraction raises on the first song of a run, \<^verbatim>\<open>temp_song_dict\<close> is unbound
  and line 303 raises \<^verbatim>\<open>UnboundLocalError\<close>, which ends the loop.
\<close>

lemma read_songs_unbound_on_first_extraction_error:
  "read_songs example_env example_database example_fs
     [''/music/b.mp3'', ''/music/a.mp3''] ([], None)
   = Inl (UnboundLocalError ''temp_song_dict'')"
  by code_simp

section \<open>Playlist Locator: a missing playlist directory\<close>

lemma scan_missing_root:
  assumes "stat fs (playlists_dir st) = Inl e"
  shows "scan_playlists st fs = []"
  using assms by (simp add: scan_playlists_def os_walk_def os_listdir_def Let_def)

lemma prefixes_of_prefix: "a \<in> set (prefixes_of k) \<Longrightarrow> prefix a k"
  by (auto simp: prefixes_of_def take_is_prefix)

lemma lookup_append_missing:
  assumes "lookup fs q = None" "\<not> prefix q k"
  shows "lookup (fs @ missing_dirs fs k) q = None"
proof -
  have "q \<notin> fst ` set (missing_dirs fs k)"
    using assms(2) prefixes_of_prefix by (auto simp: missing_dirs_def)
  then have "map_of (missing_dirs fs k) q = None"
    by (simp add: map_of_eq_None_iff)
  with assms(1) show ?thesis
    by (auto simp: lookup_def map_add_def split: if_splits)
qed

lemma stat_missing_after_makedirs:
  assumes "stat fs p = Inl FileNotFoundError" "os_makedirs fs d = Inr fs1"
    "\<not> prefix (components p) (components d)"
  shows "stat fs1 p = Inl FileNotFoundError"
proof (cases "p = []")
  case True
  then show ?thesis by (simp add: stat_def)
next
  case False
  with assms(1) have "lookup fs (components p) = None"
    by (auto simp: stat_def split: option.splits node.splits if_splits)
  moreover from assms(2) have "fs1 = fs @ missing_dirs fs (components d)"
    by (auto simp: os_makedirs_def Let_def split: if_splits)
  ultimately have "lookup fs1 (components p) = None"
    using assms(3) by (simp add: lookup_append_missing)
  with False show ?thesis by (simp add: stat_def)
qed

text \<open>
  C3, as the specification states it: a missing playlist directory makes the job fail.
  The scan runs in a \<^verbatim>\<open>try\<close> whose handler logs the exception and goes on. With the
  directory \<^verbatim>\<open>/nowhere\<close>, which the small installation does not have, the run as an input
  returns the empty list of playlists and raises nothing.
\<close>

theorem missing_root_is_not_fatal_counterexample:
  "stat example_fs (playlists_dir (example_settings\<lparr>dir := ''/nowhere''\<rparr>))
     = Inl FileNotFoundError
   \<and> run example_env (example_settings\<lparr>dir := ''/nowhere''\<rparr>) (example_kwargs ''inputs'' [])
       example_fs = (Inr (Playlists []), example_fs, [])"
  by code_simp

text \<open>
  C3, amended: when the playlist directory is missing, the scan finds no playlist, in
  either scan mode, and the job goes on with the empty catalog. As an input the run
  returns the empty list and fails nowhere. As an output with a retention level above
  zero the run does fail, with the exception of the backup step (the snapshot copy of
  the missing directory, unless creating the backup directory raised before), and
  \<^verbatim>\<open>songs_dict\<close> is untouched; this needs that creating the backup directory does not
  create the playlist directory, which is then not a directory above the backup directory.
\<close>

theorem missing_root_gives_empty_catalog:
  assumes "stat fs (playlists_dir st) = Inl FileNotFoundError"
  shows "scan_playlists st fs = []
       \<and> (component kw = ''inputs'' \<longrightarrow>
            run ev st kw fs = (Inr (Playlists []), fs, songs_dict kw))
       \<and> (component kw = ''outputs'' \<longrightarrow> map_of retention_dict (retention st) = Some keep \<longrightarrow>
            0 < keep \<longrightarrow>
            \<not> prefix (components (playlists_dir st))
                (components (os_path_dirname (backup_dir ev (applet_id kw)))) \<longrightarrow>
            (\<exists>e fs1. run ev st kw fs = (Inl e, fs1, songs_dict kw)))"
proof (intro conjI impI)
  show s: "scan_playlists st fs = []"
    using assms by (rule scan_missing_root)
  show "run ev st kw fs = (Inr (Playlists []), fs, songs_dict kw)" if "component kw = ''inputs''"
    using that s by (simp add: run_def Let_def)
  show "\<exists>e fs1. run ev st kw fs = (Inl e, fs1, songs_dict kw)"
    if c: "component kw = ''outputs''" and k: "map_of retention_dict (retention st) = Some keep"
      and pos: "0 < keep"
      and np: "\<not> prefix (components (playlists_dir st))
                 (components (os_path_dirname (backup_dir ev (applet_id kw))))"
  proof -
    have sp: "snapshot_and_prune ev st (applet_id kw) (playlists_dir st) fs' =
              (Inl FileNotFoundError, fs')"
      if "stat fs' (playlists_dir st) = Inl FileNotFoundError" for fs'
      using that k pos by (simp add: snapshot_and_prune_def shutil_copytree_def)
    have "\<exists>e fs1. backup_playlists ev st (applet_id kw) (playlists_dir st) fs = (Inl e, fs1)"
    proof (cases "os_makedirs fs (os_path_dirname (backup_dir ev (applet_id kw)))")
      case (Inl e)
      then show ?thesis
        using sp [OF assms] by (simp add: backup_playlists_def)
    next
      case (Inr fs1)
      then show ?thesis
        using sp [OF stat_missing_after_makedirs [OF assms Inr np]]
        by (simp add: backup_playlists_def)
    qed
    then show ?thesis
      using c by (auto simp: run_def Let_def)
  qed
qed

theorem missing_root_gives_empty_catalog_witness:
  "stat example_fs (playlists_dir (example_settings\<lparr>dir := ''/nowhere''\<rparr>))
     = Inl FileNotFoundError
   \<and> scan_playlists (example_settings\<lparr>dir := ''/nowhere''\<rparr>) example_fs = []
   \<and> component (example_kwargs ''outputs'' []) = ''outputs''
   \<and> map_of retention_dict (retention (example_settings\<lparr>dir := ''/nowhere''\<rparr>)) = Some 3
   \<and> \<not> prefix (components (playlists_dir (example_settings\<lparr>dir := ''/nowhere''\<rparr>)))
         (components (os_path_dirname
            (backup_dir example_env (applet_id (example_kwargs ''outputs'' [])))))
   \<and> (\<exists>e fs1. run example_env (example_settings\<lparr>dir := ''/nowhere''\<rparr>)
                 (example_kwargs ''outputs'' []) example_fs
               = (Inl e, fs1, songs_dict (example_kwargs ''outputs'' [])))"
proof -
  let ?st = "example_settings\<lparr>dir := ''/nowhere''\<rparr>"
  let ?kw = "example_kwargs ''outputs'' []"
  have h: "stat example_fs (playlists_dir ?st) = Inl FileNotFoundError"
    by code_simp
  have c: "component ?kw = ''outputs''"
    by code_simp
  have k: "map_of retention_dict (retention ?st) = Some 3"
    by code_simp
  have p: "(0::nat) < 3"
    by simp
  have np: "\<not> prefix (components (playlists_dir ?st))
              (components (os_path_dirname (backup_dir example_env (applet_id ?kw))))"
    by code_simp
  note t = missing_root_gives_empty_catalog [OF h, of ?kw example_env 3]
  from t have s: "scan_playlists ?st example_fs = []"
    by (rule conjunct1)
  from t have "\<exists>e fs1. run example_env ?st ?kw example_fs = (Inl e, fs1, songs_dict ?kw)"
    using c k p np by blast
  with h s c k np show ?thesis
    by blast
qed

section \<open>Write/Merge Pipeline: the names after the run\<close>

lemma re_sub_title_no_invalid: "c \<in> set (re_sub_title s) \<Longrightarrow> c \<notin> set invalid_chars"
  by (induction s rule: re_sub_title.induct) (auto split: if_splits)


lemma write_playlist_item:
  "write_playlist db path pls item fs = (r, fs', item') \<Longrightarrow>
   item' = item\<lparr>name := re_sub_title (name item)\<rparr>"
  by (auto simp: write_playlist_def Let_def split: sum.splits)

lemma write_playlists_items:
  "write_playlists db path pls items fs = (Inr u, fs', items') \<Longrightarrow>
   items' = map (\<lambda>item. item\<lparr>name := re_sub_title (name item)\<rparr>) items"
proof (induction items arbitrary: fs items')
  case Nil
  then show ?case by simp
next
  case (Cons item rest)
  then show ?case
    by (auto split: prod.splits sum.splits dest: write_playlist_item)
qed




lemma write_playlist_opens_new_name:
  assumes "write_playlist db path playlists item fs = (r, fs', item')"
  shows "case r of
           Inl e \<Rightarrow> fs' = fs
         | Inr u \<Rightarrow>
             (\<exists>p. playlist_target path playlists (re_sub_title (name item)) = Inr p
                \<and> write_text fs p (concat (List.map_filter (song_line db) (songs item))) = Inr fs')"
  using assms by (auto simp: write_playlist_def Let_def split: sum.splits)





section \<open>Write/Merge Pipeline: an existing playlist is replaced\<close>

lemma map_of_set_node: "map_of (set_node k n fs) k = Some n"
proof (cases "k \<in> set (map fst fs)")
  case True
  then have "map_of (map (\<lambda>e. if fst e = k then (k, n) else e) fs) k = Some n"
    by (induction fs) auto
  with True show ?thesis by (simp add: set_node_def)
next
  case False
  then have "map_of fs k = None"
    by (simp add: map_of_eq_None_iff)
  with False show ?thesis by (simp add: set_node_def map_add_def)
qed

lemma read_after_write:
  assumes "write_text fs p content = Inr fs'"
  shows "read_text fs' p = Inr content"
proof -
  let ?k = "components p"
  from assms have ne: "p \<noteq> []" and ns: "\<not> endswith p ''/''"
    and k: "?k \<noteq> []" "?k \<noteq> [''/'']" and fs': "fs' = set_node ?k (File content) fs"
    by (auto simp: write_text_def Let_def lookup_def split: if_splits option.splits node.splits)
  have "lookup fs' ?k = Some (File content)"
    using k by (simp add: lookup_def fs' map_of_set_node)
  with ne ns show ?thesis
    by (simp add: read_text_def stat_def)
qed

lemma splitlines_line:
  "\<not> list_ex is_linebreak l \<Longrightarrow> splitlines (l @ LF # rest) = l # splitlines rest"
  by (induction l) (auto simp: is_linebreak_def)

lemma splitlines_written:
  "list_all (\<lambda>l. \<not> list_ex is_linebreak l) ls \<Longrightarrow>
   splitlines (concat (map (\<lambda>l. l @ [LF]) ls)) = ls"
  by (induction ls) (auto simp: splitlines_line)

lemma song_lines:
  "List.map_filter (song_line db) ss =
   map (\<lambda>l. local_path db l @ [LF]) (List.map_filter (\<lambda>song. map_of song ''location'') ss)"
  by (induction ss) (auto simp: List.map_filter_def song_line_def split: option.splits)

lemma find_first: "find P xs = Some x \<Longrightarrow> \<exists>ys. filter P xs = x # ys"
  by (induction xs) (auto split: if_splits)

lemma playlist_target_existing:
  assumes "find (\<lambda>x. file_name x = title) playlists = Some x"
  shows "playlist_target path playlists title = Inr (file_path x)"
proof -
  from find_first [OF assms] obtain ys
    where f: "filter (\<lambda>x. file_name x = title) playlists = x # ys"
    by blast
  then have "x \<in> set (filter (\<lambda>x. file_name x = title) playlists)" by simp
  then have "title \<in> set (map file_name playlists)" by auto
  with f show ?thesis by (simp add: playlist_target_def)
qed

lemma write_playlist_replaces:
  assumes "write_playlist db path playlists item fs = (Inr u, fs', item')"
    and "find (\<lambda>x. file_name x = re_sub_title (name item)) playlists = Some x"
  shows "read_text fs' (file_path x) =
           Inr (concat (map (\<lambda>l. local_path db l @ [LF]) (located item)))"
  using assms
  by (auto simp: write_playlist_def Let_def playlist_target_existing song_lines located_def
      split: sum.splits dest: read_after_write)

lemma write_playlists_last:
  "write_playlists db path pls (pre @ [item]) fs = (Inr u, fs', items') \<Longrightarrow>
   \<exists>fs1 item'. write_playlist db path pls item fs1 = (Inr (), fs', item')"
proof (induction pre arbitrary: fs items')
  case Nil
  then show ?case by (auto split: prod.splits sum.splits)
next
  case (Cons a pre)
  then show ?case by (auto split: prod.splits sum.splits)
qed

lemma map_of_set_node_other: "q \<noteq> k \<Longrightarrow> map_of (set_node k n fs) q = map_of fs q"
proof (cases "k \<in> set (map fst fs)")
  case True
  assume "q \<noteq> k"
  then have "map_of (map (\<lambda>e. if fst e = k then (k, n) else e) fs) q = map_of fs q"
    by (induction fs) auto
  with True show ?thesis by (simp add: set_node_def)
next
  case False
  assume "q \<noteq> k"
  with False show ?thesis
    by (auto simp: set_node_def map_add_def split: option.splits)
qed

lemma write_text_lookup_other:
  assumes "write_text fs p content = Inr fs'" "q \<noteq> components p"
  shows "lookup fs' q = lookup fs q"
proof -
  from assms(1) have "fs' = set_node (components p) (File content) fs"
    by (auto simp: write_text_def Let_def split: if_splits option.splits node.splits)
  with assms(2) show ?thesis
    by (simp add: lookup_def map_of_set_node_other)
qed

lemma write_text_read_other:
  assumes "write_text fs p content = Inr fs'" "components q \<noteq> components p"
  shows "read_text fs' q = read_text fs q"
  using write_text_lookup_other [OF assms] by (simp add: read_text_def stat_def)

lemma write_playlists_read_other:
  assumes "write_playlists db path pls items fs = (Inr u, fs', items')"
    and "\<forall>j<length items. \<forall>q.
           playlist_target path pls (re_sub_title (name (items ! j))) = Inr q \<longrightarrow>
           components q \<noteq> components p"
  shows "read_text fs' p = read_text fs p"
  using assms
proof (induction items arbitrary: fs items')
  case Nil
  then show ?case by simp
next
  case (Cons a items)
  from Cons.prems(1) obtain fs1 a' rest'
    where w: "write_playlist db path pls a fs = (Inr (), fs1, a')"
      and r: "write_playlists db path pls items fs1 = (Inr u, fs', rest')"
    by (auto split: prod.splits sum.splits)
  from write_playlist_opens_new_name [OF w] obtain q
    where q: "playlist_target path pls (re_sub_title (name a)) = Inr q"
      "write_text fs q (concat (List.map_filter (song_line db) (songs a))) = Inr fs1"
    by auto
  from Cons.prems(2) q(1) have "components q \<noteq> components p"
    by (auto dest: spec [of _ 0])
  then have "components p \<noteq> components q" by simp
  from write_text_read_other [OF q(2) this] have 1: "read_text fs1 p = read_text fs p" .
  have "read_text fs' p = read_text fs1 p"
  proof (rule Cons.IH [OF r])
    show "\<forall>j<length items. \<forall>q.
           playlist_target path pls (re_sub_title (name (items ! j))) = Inr q \<longrightarrow>
           components q \<noteq> components p"
      using Cons.prems(2) by (auto dest: spec [of _ "Suc j" for j])
  qed
  with 1 show ?case by simp
qed

lemma write_playlists_content:
  assumes "write_playlists db path pls items fs = (Inr u, fs', items')"
    and "i < length items"
    and "playlist_target path pls (re_sub_title (name (items ! i))) = Inr p"
    and "\<forall>j<length items. i < j \<longrightarrow> (\<forall>q.
           playlist_target path pls (re_sub_title (name (items ! j))) = Inr q \<longrightarrow>
           components q \<noteq> components p)"
  shows "read_text fs' p = Inr (concat (List.map_filter (song_line db) (songs (items ! i))))"
  using assms
proof (induction items arbitrary: fs items' i)
  case Nil
  then show ?case by simp
next
  case (Cons a items)
  from Cons.prems(1) obtain fs1 a' rest'
    where w: "write_playlist db path pls a fs = (Inr (), fs1, a')"
      and r: "write_playlists db path pls items fs1 = (Inr u, fs', rest')"
    by (auto split: prod.splits sum.splits)
  show ?case
  proof (cases i)
    case 0
    from write_playlist_opens_new_name [OF w] Cons.prems(3) 0
    have "write_text fs p (concat (List.map_filter (song_line db) (songs a))) = Inr fs1"
      by auto
    then have "read_text fs1 p = Inr (concat (List.map_filter (song_line db) (songs a)))"
      by (rule read_after_write)
    moreover have "read_text fs' p = read_text fs1 p"
    proof (rule write_playlists_read_other [OF r])
      show "\<forall>j<length items. \<forall>q.
           playlist_target path pls (re_sub_title (name (items ! j))) = Inr q \<longrightarrow>
           components q \<noteq> components p"
        using Cons.prems(4) 0 by (auto dest: spec [of _ "Suc j" for j])
    qed
    ultimately show ?thesis
      using 0 by simp
  next
    case (Suc i')
    have "read_text fs' p = Inr (concat (List.map_filter (song_line db) (songs (items ! i'))))"
    proof (rule Cons.IH [OF r])
      show "i' < length items" using Cons.prems(2) Suc by simp
      show "playlist_target path pls (re_sub_title (name (items ! i'))) = Inr p"
        using Cons.prems(3) Suc by simp
      show "\<forall>j<length items. i' < j \<longrightarrow> (\<forall>q.
           playlist_target path pls (re_sub_title (name (items ! j))) = Inr q \<longrightarrow>
           components q \<noteq> components p)"
        using Cons.prems(4) Suc by (auto dest: spec [of _ "Suc j" for j])
    qed
    then show ?thesis
      using Suc by simp
  qed
qed

text \<open>
  C4: writing a playlist whose new name is the name of a playlist found on disk replaces
  the content of that file (of the first one found with the name). At the end of a run as
  an output that returns, for every playlist of \<^verbatim>\<open>songs_dict\<close> whose new name is the name
  of a playlist the scan found, the file of the first playlist found with that name holds
  one line for every song of the playlist that has a \<^verbatim>\<open>location\<close>, in order, the translated
  path and a newline, and nothing else, whatever the file held before; this for the last
  playlist of \<^verbatim>\<open>songs_dict\<close> that is written to the file, that is, when no later playlist of
  \<^verbatim>\<open>songs_dict\<close> has that file as its target. The same holds after the write of one
  playlist, from any state of the file system. When no translated path contains a line
  boundary, the lines of the file are exactly these paths, so a song of the old file that
  is not among them is not in the file.
\<close>

theorem existing_playlist_is_fully_replaced:
  "(component kw = ''outputs'' \<longrightarrow> run ev st kw fs = (Inr v, fs'', items) \<longrightarrow>
      i < length (songs_dict kw) \<longrightarrow>
      find (\<lambda>x. file_name x = re_sub_title (name (songs_dict kw ! i))) (scan_playlists st fs)
        = Some y \<longrightarrow>
      (\<forall>j<length (songs_dict kw). i < j \<longrightarrow> (\<forall>q.
          playlist_target (playlists_dir st) (scan_playlists st fs)
            (re_sub_title (name (songs_dict kw ! j))) = Inr q \<longrightarrow>
          components q \<noteq> components (file_path y))) \<longrightarrow>
      read_text fs'' (file_path y) =
        Inr (concat (map (\<lambda>l. local_path (database kw) l @ [LF]) (located (songs_dict kw ! i)))))
   \<and> (write_playlist db path playlists item fs = (Inr u, fs', item') \<longrightarrow>
      find (\<lambda>x. file_name x = re_sub_title (name item)) playlists = Some x \<longrightarrow>
      read_text fs' (file_path x) =
        Inr (concat (map (\<lambda>l. local_path db l @ [LF]) (located item))))
   \<and> (list_all (\<lambda>l. \<not> list_ex is_linebreak (local_path db l)) (located item) \<longrightarrow>
      splitlines (concat (map (\<lambda>l. local_path db l @ [LF]) (located item))) =
        map (local_path db) (located item))"
proof (intro conjI impI)
  show "read_text fs' (file_path x) =
        Inr (concat (map (\<lambda>l. local_path db l @ [LF]) (located item)))"
    if "write_playlist db path playlists item fs = (Inr u, fs', item')"
      "find (\<lambda>x. file_name x = re_sub_title (name item)) playlists = Some x"
    using that by (rule write_playlist_replaces)
  show "read_text fs'' (file_path y) =
        Inr (concat (map (\<lambda>l. local_path (database kw) l @ [LF]) (located (songs_dict kw ! i))))"
    if c: "component kw = ''outputs''" and r: "run ev st kw fs = (Inr v, fs'', items)"
      and i: "i < length (songs_dict kw)"
      and f: "find (\<lambda>x. file_name x = re_sub_title (name (songs_dict kw ! i)))
                (scan_playlists st fs) = Some y"
      and o: "\<forall>j<length (songs_dict kw). i < j \<longrightarrow> (\<forall>q.
          playlist_target (playlists_dir st) (scan_playlists st fs)
            (re_sub_title (name (songs_dict kw ! j))) = Inr q \<longrightarrow>
          components q \<noteq> components (file_path y))"
  proof -
    from c r obtain u fs1 where w: "write_playlists (database kw) (playlists_dir st)
        (scan_playlists st fs) (songs_dict kw) fs1 = (Inr u, fs'', items)"
      by (auto simp: run_def Let_def split: prod.splits sum.splits)
    have t: "playlist_target (playlists_dir st) (scan_playlists st fs)
        (re_sub_title (name (songs_dict kw ! i))) = Inr (file_path y)"
      using f by (rule playlist_target_existing)
    from write_playlists_content [OF w i t o] show ?thesis
      by (simp add: song_lines located_def)
  qed
  show "splitlines (concat (map (\<lambda>l. local_path db l @ [LF]) (located item))) =
        map (local_path db) (located item)"
    if "list_all (\<lambda>l. \<not> list_ex is_linebreak (local_path db l)) (located item)"
  proof -
    from that
    have "list_all (\<lambda>l. \<not> list_ex is_linebreak l) (map (local_path db) (located item))"
      by (simp add: list_all_iff)
    from splitlines_written [OF this] show ?thesis
      by (simp add: comp_def)
  qed
qed

text \<open>
  In the small installation, the playlist \<^verbatim>\<open>mix\<close> arrives with the song \<^verbatim>\<open>/mnt/c.mp3\<close> and
  a song without location, followed by a new playlist \<^verbatim>\<open>rock\<close>: \<^verbatim>\<open>/pl/mix.m3u\<close>, which
  named \<^verbatim>\<open>a.mp3\<close> and \<^verbatim>\<open>b.mp3\<close>, holds the one line \<^verbatim>\<open>/music/c.mp3\<close> when the run
  returns.
\<close>

theorem existing_playlist_is_fully_replaced_witness:
  "fst (run example_env example_settings (example_kwargs ''outputs''
        [\<lparr>name = ''mix'', id_dict = [],
          songs = [[(''location'', ''/mnt/c.mp3'')], [(''title'', ''T'')]]\<rparr>,
         \<lparr>name = ''rock'', id_dict = [], songs = [[(''location'', ''/mnt/a.mp3'')]]\<rparr>])
        example_fs) = Inr NoneValue
   \<and> find (\<lambda>x. file_name x = re_sub_title ''mix'') (scan_playlists example_settings example_fs)
      = Some \<lparr>file_name = ''mix'', file_path = ''/pl/mix.m3u''\<rparr>
   \<and> playlist_target ''/pl'' (scan_playlists example_settings example_fs) (re_sub_title ''rock'')
      = Inr ''/pl/rock.m3u''
   \<and> read_text example_fs ''/pl/mix.m3u''
      = Inr (''# mix'' @ [LF] @ ''/music/a.mp3'' @ [LF] @ [LF] @ ''/music/b.mp3'' @ [LF])
   \<and> read_text (fst (snd (run example_env example_settings (example_kwargs ''outputs''
        [\<lparr>name = ''mix'', id_dict = [],
          songs = [[(''location'', ''/mnt/c.mp3'')], [(''title'', ''T'')]]\<rparr>,
         \<lparr>name = ''rock'', id_dict = [], songs = [[(''location'', ''/mnt/a.mp3'')]]\<rparr>])
        example_fs)))
        ''/pl/mix.m3u'' = Inr (''/music/c.mp3'' @ [LF])
   \<and> fst (write_playlist example_database ''/pl'' (scan_playlists example_settings example_fs)
      \<lparr>name = ''mix'', id_dict = [],
        songs = [[(''location'', ''/mnt/c.mp3'')], [(''title'', ''T'')]]\<rparr> example_fs) = Inr ()
   \<and> read_text (fst (snd (write_playlist example_database ''/pl''
        (scan_playlists example_settings example_fs)
        \<lparr>name = ''mix'', id_dict = [],
          songs = [[(''location'', ''/mnt/c.mp3'')], [(''title'', ''T'')]]\<rparr> example_fs)))
        ''/pl/mix.m3u'' = Inr (''/music/c.mp3'' @ [LF])
   \<and> splitlines (''/music/c.mp3'' @ [LF]) = [''/music/c.mp3'']"
proof -
  let ?item = "\<lparr>name = ''mix'', id_dict = [],
      songs = [[(''location'', ''/mnt/c.mp3'')], [(''title'', ''T'')]]\<rparr>"
  let ?rock = "\<lparr>name = ''rock'', id_dict = [], songs = [[(''location'', ''/mnt/a.mp3'')]]\<rparr>"
  let ?pls = "scan_playlists example_settings example_fs"
  let ?x = "\<lparr>file_name = ''mix'', file_path = ''/pl/mix.m3u''\<rparr>"
  let ?kw = "example_kwargs ''outputs'' [?item, ?rock]"
  let ?w = "write_playlist example_database ''/pl'' ?pls ?item example_fs"
  let ?r = "run example_env example_settings ?kw example_fs"
  note t = existing_playlist_is_fully_replaced
  have content: "concat (map (\<lambda>l. local_path example_database l @ [LF]) (located ?item))
      = ''/music/c.mp3'' @ [LF]"
    by code_simp
  have db: "database ?kw = example_database" and pd: "playlists_dir example_settings = ''/pl''"
    and sd: "songs_dict ?kw = [?item, ?rock]"
    by code_simp+
  have f: "find (\<lambda>x. file_name x = re_sub_title (name ?item)) ?pls = Some ?x"
    by code_simp
  have f': "find (\<lambda>x. file_name x = re_sub_title ''mix'') ?pls = Some ?x"
    using f by simp
  have tr: "playlist_target ''/pl'' ?pls (re_sub_title ''rock'') = Inr ''/pl/rock.m3u''"
    by code_simp
  have old: "read_text example_fs ''/pl/mix.m3u''
      = Inr (''# mix'' @ [LF] @ ''/music/a.mp3'' @ [LF] @ [LF] @ ''/music/b.mp3'' @ [LF])"
    by code_simp
  have ne: "components ''/pl/rock.m3u'' \<noteq> components (file_path ?x)"
    by code_simp
  have c: "component ?kw = ''outputs''"
    by code_simp
  have v: "fst ?r = Inr NoneValue"
    by code_simp
  then obtain fs'' items where r: "?r = (Inr NoneValue, fs'', items)"
    by (cases ?r) auto
  have i: "0 < length (songs_dict ?kw)"
    by (simp add: sd)
  have f0: "find (\<lambda>x. file_name x = re_sub_title (name (songs_dict ?kw ! 0))) ?pls = Some ?x"
    using f by (simp add: sd)
  have o: "\<forall>j<length (songs_dict ?kw). 0 < j \<longrightarrow> (\<forall>q.
      playlist_target (playlists_dir example_settings) ?pls
        (re_sub_title (name (songs_dict ?kw ! j))) = Inr q \<longrightarrow>
      components q \<noteq> components (file_path ?x))"
  proof (intro allI impI)
    fix j q
    assume "j < length (songs_dict ?kw)" "0 < j"
      and q: "playlist_target (playlists_dir example_settings) ?pls
        (re_sub_title (name (songs_dict ?kw ! j))) = Inr q"
    then have "j = 1" by (simp add: sd)
    with q tr have "q = ''/pl/rock.m3u''"
      by (simp add: sd pd)
    with ne show "components q \<noteq> components (file_path ?x)"
      by simp
  qed
  have "read_text fs'' (file_path ?x)
      = Inr (concat (map (\<lambda>l. local_path (database ?kw) l @ [LF]) (located (songs_dict ?kw ! 0))))"
    using t [THEN conjunct1, THEN mp, OF c, THEN mp, OF r, THEN mp, OF i, THEN mp, OF f0,
        THEN mp, OF o] .
  then have b: "read_text (fst (snd ?r)) ''/pl/mix.m3u'' = Inr (''/music/c.mp3'' @ [LF])"
    using content r by (simp add: sd db)
  have w: "fst ?w = Inr ()"
    by code_simp
  then obtain fs' item' where w': "?w = (Inr (), fs', item')"
    by (cases ?w) auto
  have a: "read_text (fst (snd ?w)) ''/pl/mix.m3u'' = Inr (''/music/c.mp3'' @ [LF])"
    using t [THEN conjunct2, THEN conjunct1, rule_format, OF w' f] content w'
    by simp
  have nl: "list_all (\<lambda>l. \<not> list_ex is_linebreak (local_path example_database l))
      (located ?item)"
    by code_simp
  have paths: "map (local_path example_database) (located ?item) = [''/music/c.mp3'']"
    by code_simp
  have l: "splitlines (''/music/c.mp3'' @ [LF]) = [''/music/c.mp3'']"
    using t [THEN conjunct2, THEN conjunct2, rule_format, OF nl] content paths
    by simp
  show ?thesis
    using v f' tr old b w a l by blast
qed

section \<open>Backup Manager: which failures are fatal\<close>

lemma prune_backups_subset:
  "prune_backups bdir keep backups backup_time fs = (r, fs') \<Longrightarrow> set fs' \<subseteq> set fs"
proof (induction bdir keep backups backup_time fs rule: prune_backups.induct)
  case (1 bdir keep backups backup_time fs)
  note p = "1.prems" [unfolded prune_backups.simps [of bdir keep backups backup_time fs]]
  show ?case
  proof (cases "keep < length backups \<and> backup_time \<noteq> []")
    case False
    with p show ?thesis
      by (auto split: if_splits)
  next
    case True
    show ?thesis
    proof (cases "index_of backup_time (min_list backup_time)")
      case None
      with True p show ?thesis
        by auto
    next
      case (Some i)
      show ?thesis
      proof (cases "length backups \<le> i")
        case le: True
        with True Some p show ?thesis
          by auto
      next
        case nle: False
        show ?thesis
        proof (cases "shutil_rmtree fs (os_path_join bdir (backups ! i))")
          case (Inl e)
          with True Some nle p show ?thesis
            by auto
        next
          case (Inr fs1)
          with True Some nle p
          have "prune_backups bdir keep (delete_at i backups) (delete_at i backup_time) fs1 = (r, fs')"
            by auto
          with "1.IH" [of i fs1] True Some nle Inr have "set fs' \<subseteq> set fs1"
            by simp
          moreover from Inr have "set fs1 \<subseteq> set fs"
            by (auto simp: shutil_rmtree_def split: sum.splits node.splits)
          ultimately show ?thesis by auto
        qed
      qed
    qed
  qed
qed

text \<open>
  C5: \<^verbatim>\<open>FileExistsError\<close> from the \<^verbatim>\<open>os.makedirs\<close> of the backup directory is
  swallowed: the backup goes on with the snapshot and the pruning on the file system as it
  is. Every other failure of the backup ends the run of the job as an output with that
  exception and with \<^verbatim>\<open>songs_dict\<close> as it was passed, so before a playlist is renamed or
  written: an exception of \<^verbatim>\<open>os.makedirs\<close> other than \<^verbatim>\<open>FileExistsError\<close>, on the file system
  as it was; an exception of the snapshot copy, on the file system as \<^verbatim>\<open>os.makedirs\<close> left
  it; an exception of the listing of the backup directory, on the file system as the copy
  left it; and an exception with which the pruning loop ends, on the file system as the
  loop left it, which holds nothing that was not there after the copy. The pruning loop
  ends with the exception of \<^verbatim>\<open>shutil.rmtree\<close> in the iteration in which it raises, and
  goes on with the next iteration after a \<^verbatim>\<open>shutil.rmtree\<close> that returns.
\<close>

theorem backup_failures_abort_the_job:
  "(os_makedirs fs (os_path_dirname (backup_dir ev (applet_id kw))) = Inl FileExistsError \<longrightarrow>
      backup_playlists ev st (applet_id kw) (playlists_dir st) fs
        = snapshot_and_prune ev st (applet_id kw) (playlists_dir st) fs)
   \<and> (component kw = ''outputs'' \<longrightarrow>
      os_makedirs fs (os_path_dirname (backup_dir ev (applet_id kw))) = Inl e \<longrightarrow>
      e \<noteq> FileExistsError \<longrightarrow>
      run ev st kw fs = (Inl e, fs, songs_dict kw))
   \<and> (component kw = ''outputs'' \<longrightarrow>
      os_makedirs fs (os_path_dirname (backup_dir ev (applet_id kw))) = Inr made
        \<or> os_makedirs fs (os_path_dirname (backup_dir ev (applet_id kw))) = Inl FileExistsError
           \<and> made = fs \<longrightarrow>
      map_of retention_dict (retention st) = Some keep \<longrightarrow>
      (0 < keep \<longrightarrow>
         shutil_copytree made (playlists_dir st)
           (os_path_join (backup_dir ev (applet_id kw)) (runtime ev)) = Inl e \<longrightarrow>
         run ev st kw fs = (Inl e, made, songs_dict kw))
      \<and> ((if 0 < keep
           then shutil_copytree made (playlists_dir st)
                  (os_path_join (backup_dir ev (applet_id kw)) (runtime ev))
           else Inr made) = Inr copied \<longrightarrow>
          (os_listdir copied (backup_dir ev (applet_id kw)) = Inl e \<longrightarrow>
             run ev st kw fs = (Inl e, copied, songs_dict kw))
          \<and> (os_listdir copied (backup_dir ev (applet_id kw)) = Inr backups \<longrightarrow>
             prune_backups (backup_dir ev (applet_id kw)) keep backups
               (map (\<lambda>b. str_replace b ''-'' []) backups) copied = (Inl e, left) \<longrightarrow>
             run ev st kw fs = (Inl e, left, songs_dict kw) \<and> set left \<subseteq> set copied)))
   \<and> (keep < length backups \<longrightarrow> index_of backup_time (min_list backup_time) = Some i \<longrightarrow>
      i < length backups \<longrightarrow>
      (shutil_rmtree fs (os_path_join bdir (backups ! i)) = Inl e \<longrightarrow>
         prune_backups bdir keep backups backup_time fs = (Inl e, fs))
      \<and> (shutil_rmtree fs (os_path_join bdir (backups ! i)) = Inr pruned \<longrightarrow>
         prune_backups bdir keep backups backup_time fs =
           prune_backups bdir keep (delete_at i backups) (delete_at i backup_time) pruned))"
proof (intro conjI impI)
  let ?B = "backup_dir ev (applet_id kw)"
  show "backup_playlists ev st (applet_id kw) (playlists_dir st) fs
        = snapshot_and_prune ev st (applet_id kw) (playlists_dir st) fs"
    if "os_makedirs fs (os_path_dirname ?B) = Inl FileExistsError"
    using that by (simp add: backup_playlists_def)
  show "run ev st kw fs = (Inl e, fs, songs_dict kw)"
    if "component kw = ''outputs''" "os_makedirs fs (os_path_dirname ?B) = Inl e"
      "e \<noteq> FileExistsError"
    using that by (simp add: run_def Let_def backup_playlists_def)
  have b: "backup_playlists ev st (applet_id kw) (playlists_dir st) fs
        = snapshot_and_prune ev st (applet_id kw) (playlists_dir st) made"
    if "os_makedirs fs (os_path_dirname ?B) = Inr made
        \<or> os_makedirs fs (os_path_dirname ?B) = Inl FileExistsError \<and> made = fs"
    using that by (auto simp: backup_playlists_def)
  have r: "run ev st kw fs = (Inl e, left, songs_dict kw)"
    if "component kw = ''outputs''"
      "os_makedirs fs (os_path_dirname ?B) = Inr made
        \<or> os_makedirs fs (os_path_dirname ?B) = Inl FileExistsError \<and> made = fs"
      "snapshot_and_prune ev st (applet_id kw) (playlists_dir st) made = (Inl e, left)"
    for left
    using that(1,3) b [OF that(2)] by (simp add: run_def Let_def)
  show "run ev st kw fs = (Inl e, made, songs_dict kw)"
    if "component kw = ''outputs''"
      "os_makedirs fs (os_path_dirname ?B) = Inr made
        \<or> os_makedirs fs (os_path_dirname ?B) = Inl FileExistsError \<and> made = fs"
      "map_of retention_dict (retention st) = Some keep" "0 < keep"
      "shutil_copytree made (playlists_dir st) (os_path_join ?B (runtime ev)) = Inl e"
    using that(3-5) by (intro r [OF that(1,2)]) (simp add: snapshot_and_prune_def)
  show "run ev st kw fs = (Inl e, copied, songs_dict kw)"
    if "component kw = ''outputs''"
      "os_makedirs fs (os_path_dirname ?B) = Inr made
        \<or> os_makedirs fs (os_path_dirname ?B) = Inl FileExistsError \<and> made = fs"
      "map_of retention_dict (retention st) = Some keep"
      "(if 0 < keep then shutil_copytree made (playlists_dir st) (os_path_join ?B (runtime ev))
        else Inr made) = Inr copied"
      "os_listdir copied ?B = Inl e"
    using that(3-5) by (intro r [OF that(1,2)]) (simp add: snapshot_and_prune_def)
  show "run ev st kw fs = (Inl e, left, songs_dict kw)"
    if "component kw = ''outputs''"
      "os_makedirs fs (os_path_dirname ?B) = Inr made
        \<or> os_makedirs fs (os_path_dirname ?B) = Inl FileExistsError \<and> made = fs"
      "map_of retention_dict (retention st) = Some keep"
      "(if 0 < keep then shutil_copytree made (playlists_dir st) (os_path_join ?B (runtime ev))
        else Inr made) = Inr copied"
      "os_listdir copied ?B = Inr backups"
      "prune_backups ?B keep backups (map (\<lambda>b. str_replace b ''-'' []) backups) copied
        = (Inl e, left)"
    using that(3-6) by (intro r [OF that(1,2)]) (simp add: snapshot_and_prune_def)
  show "set left \<subseteq> set copied"
    if "prune_backups ?B keep backups (map (\<lambda>b. str_replace b ''-'' []) backups) copied
        = (Inl e, left)"
    using that by (rule prune_backups_subset)
  show "prune_backups bdir keep backups backup_time fs = (Inl e, fs)"
    if "keep < length backups" "index_of backup_time (min_list backup_time) = Some i"
      "i < length backups" "shutil_rmtree fs (os_path_join bdir (backups ! i)) = Inl e"
  proof -
    from that(2) have "backup_time \<noteq> []" by auto
    with that show ?thesis by (subst prune_backups.simps) simp
  qed
  show "prune_backups bdir keep backups backup_time fs =
           prune_backups bdir keep (delete_at i backups) (delete_at i backup_time) pruned"
    if "keep < length backups" "index_of backup_time (min_list backup_time) = Some i"
      "i < length backups" "shutil_rmtree fs (os_path_join bdir (backups ! i)) = Inr pruned"
  proof -
    from that(2) have "backup_time \<noteq> []" by auto
    with that show ?thesis by (subst prune_backups.simps) simp
  qed
qed

text \<open>
  In the small installation: with the backup directory in place \<^verbatim>\<open>os.makedirs\<close> raises
  \<^verbatim>\<open>FileExistsError\<close> and the run returns; with a file \<^verbatim>\<open>/cfg\<close> it raises
  \<^verbatim>\<open>NotADirectoryError\<close> and the run ends with it; with the snapshot of this second already
  there the snapshot copy raises \<^verbatim>\<open>FileExistsError\<close> and the run ends with it, the playlist
  not renamed. With two snapshots and the file \<^verbatim>\<open>1999.txt\<close> in the backup directory the
  snapshot is taken, the loop finds four entries and \<^verbatim>\<open>shutil.rmtree\<close> raises on the file,
  which has the smallest key: the run ends with \<^verbatim>\<open>NotADirectoryError\<close>, the playlist
  \<^verbatim>\<open>mix\<close> as it was passed and \<^verbatim>\<open>/pl/mix.m3u\<close> as it was.
\<close>

theorem backup_failures_abort_the_job_witness:
  "os_makedirs (example_fs @ example_backups [])
       (os_path_dirname (backup_dir example_env ''job'')) = Inl FileExistsError
   \<and> backup_playlists example_env example_settings ''job'' ''/pl'' (example_fs @ example_backups [])
       = snapshot_and_prune example_env example_settings ''job'' ''/pl''
           (example_fs @ example_backups [])
   \<and> fst (run example_env example_settings
         (example_kwargs ''outputs'' [\<lparr>name = ''mix'', id_dict = [], songs = []\<rparr>])
         (example_fs @ example_backups [])) = Inr NoneValue
   \<and> run example_env example_settings
         (example_kwargs ''outputs'' [\<lparr>name = ''new: mix?'', id_dict = [], songs = []\<rparr>])
         (example_fs @ [([''/'', ''cfg''], File [])])
       = (Inl NotADirectoryError, example_fs @ [([''/'', ''cfg''], File [])],
          [\<lparr>name = ''new: mix?'', id_dict = [], songs = []\<rparr>])
   \<and> run (example_env\<lparr>now := ''2020-01-01 00:00:00''\<rparr>) example_settings
         (example_kwargs ''outputs'' [\<lparr>name = ''new: mix?'', id_dict = [], songs = []\<rparr>])
         (example_fs @ example_backups [''2020-01-01-00-00-00''])
       = (Inl FileExistsError, example_fs @ example_backups [''2020-01-01-00-00-00''],
          [\<lparr>name = ''new: mix?'', id_dict = [], songs = []\<rparr>])
   \<and> fst (run example_env example_settings
         (example_kwargs ''outputs'' [\<lparr>name = ''mix'', id_dict = [], songs = []\<rparr>])
         example_stray) = Inl NotADirectoryError
   \<and> snd (snd (run example_env example_settings
         (example_kwargs ''outputs'' [\<lparr>name = ''mix'', id_dict = [], songs = []\<rparr>])
         example_stray)) = [\<lparr>name = ''mix'', id_dict = [], songs = []\<rparr>]
   \<and> read_text (fst (snd (run example_env example_settings
         (example_kwargs ''outputs'' [\<lparr>name = ''mix'', id_dict = [], songs = []\<rparr>])
         example_stray))) ''/pl/mix.m3u'' = read_text example_fs ''/pl/mix.m3u''"
proof -
  let ?ev = "example_env\<lparr>now := ''2020-01-01 00:00:00''\<rparr>"
  let ?fs = "example_fs @ example_backups [''2020-01-01-00-00-00'']"
  let ?empty = "example_fs @ example_backups []"
  let ?blocked = "example_fs @ [([''/'', ''cfg''], File [])]"
  let ?new = "[\<lparr>name = ''new: mix?'', id_dict = [], songs = []\<rparr>]"
  let ?mix = "[\<lparr>name = ''mix'', id_dict = [], songs = []\<rparr>]"
  let ?kw = "example_kwargs ''outputs'' ?new"
  let ?km = "example_kwargs ''outputs'' ?mix"
  let ?B = "backup_dir example_env ''job''"
  note t = backup_failures_abort_the_job
  have c: "component ?kw = ''outputs''" "component ?km = ''outputs''"
    by code_simp+
  have a: "applet_id ?kw = ''job''" "applet_id ?km = ''job''"
    and pd: "playlists_dir example_settings = ''/pl''"
    and sd: "songs_dict ?kw = ?new" "songs_dict ?km = ?mix"
    and bd: "backup_dir ?ev ''job'' = ?B"
    by code_simp+
  have k: "map_of retention_dict (retention example_settings) = Some 3"
    by code_simp
  have p: "(0::nat) < 3"
    by simp
  have m1: "os_makedirs ?empty (os_path_dirname ?B) = Inl FileExistsError"
    by code_simp
  have w1: "backup_playlists example_env example_settings ''job'' ''/pl'' ?empty
      = snapshot_and_prune example_env example_settings ''job'' ''/pl'' ?empty"
    using t [where kw = ?kw, THEN conjunct1, rule_format, of ?empty example_env example_settings]
      m1 a pd by simp
  have w1': "fst (run example_env example_settings ?km ?empty) = Inr NoneValue"
    by code_simp
  have m2: "os_makedirs ?blocked (os_path_dirname ?B) = Inl NotADirectoryError"
    by code_simp
  have w2: "run example_env example_settings ?kw ?blocked
      = (Inl NotADirectoryError, ?blocked, ?new)"
    using t [where kw = ?kw, THEN conjunct2, THEN conjunct1, rule_format,
        of ?blocked example_env NotADirectoryError example_settings] c m2 a sd
    by simp
  have m3: "os_makedirs ?fs (os_path_dirname ?B) = Inl FileExistsError"
    by code_simp
  have cp: "shutil_copytree ?fs ''/pl'' (os_path_join ?B (runtime ?ev)) = Inl FileExistsError"
    by code_simp
  note t3 = t [where kw = ?kw and fs = ?fs and ev = ?ev and st = example_settings
      and made = ?fs and keep = 3 and e = FileExistsError,
      THEN conjunct2, THEN conjunct2, THEN conjunct1, rule_format, THEN conjunct1, rule_format]
  have w3: "run ?ev example_settings ?kw ?fs = (Inl FileExistsError, ?fs, ?new)"
    using t3 c m3 k p cp a pd sd bd by simp
  let ?r = "run example_env example_settings ?km example_stray"
  have m4: "os_makedirs example_stray (os_path_dirname ?B) = Inl FileExistsError"
    by code_simp
  let ?cp = "shutil_copytree example_stray ''/pl'' (os_path_join ?B (runtime example_env))"
  let ?names = "[''2019-12-29-10-00-00'', ''2019-12-30-10-00-00'', ''1999.txt'',
      ''2020-01-02-03-04-05'']"
  have "\<not> isl ?cp"
    by code_simp
  then have cp4: "?cp = Inr (projr ?cp)"
    by (cases ?cp) auto
  have ls: "os_listdir (projr ?cp) ?B = Inr ?names"
    by code_simp
  have pr: "prune_backups ?B 3 ?names (map (\<lambda>b. str_replace b ''-'' []) ?names) (projr ?cp)
      = (Inl NotADirectoryError, projr ?cp)"
    by code_simp
  note t4 = t [where kw = ?km and fs = example_stray and ev = example_env
      and st = example_settings and made = example_stray and keep = 3
      and e = NotADirectoryError and copied = "projr ?cp" and backups = ?names
      and left = "projr ?cp",
      THEN conjunct2, THEN conjunct2, THEN conjunct1, rule_format, THEN conjunct2, rule_format,
      THEN conjunct2, rule_format, THEN conjunct1]
  have w4: "?r = (Inl NotADirectoryError, projr ?cp, ?mix)"
    using t4 c m4 k cp4 ls pr a pd sd by simp
  have old: "read_text (projr ?cp) ''/pl/mix.m3u'' = read_text example_fs ''/pl/mix.m3u''"
    by code_simp
  show ?thesis
    using m1 w1 w1' w2 w3 w4 old by simp
qed

section \<open>Backup Manager: the components of joined paths\<close>













section \<open>Backup Manager: the pruning loop\<close>











section \<open>Backup Manager: the snapshot and the listing\<close>












section \<open>Backup Manager: one call\<close>




section \<open>Backup Manager: successive calls\<close>




section \<open>Backup Manager: the retention level zero\<close>



section \<open>Backup Manager: the retention level three\<close>



end
